theory Spec2Isabelle
  imports Complex_Main "HOL-Library.Word" "HOL-Library.AList"
begin

section \<open>JavaScript values\<close>

text \<open>
  A JavaScript string is a sequence of UTF-16 code units. String literals of the
  source are written \<open>js ''...''\<close>.
\<close>

type_synonym jschar = "16 word"
type_synonym jsstring = "jschar list"

definition js :: "string \<Rightarrow> jsstring" where
  "js s = map (\<lambda>c. of_nat (of_char c)) s"

text \<open>
  The values a decoded JSON document hands to the script. A number is a finite double,
  kept by its value (JSON has no NaN or infinity, and \<open>+0 === -0\<close>); an object or
  array is kept by its identity, which is all that \<open>===\<close> and \<open>typeof\<close> look at.
  With this representation \<open>a === b\<close> is \<open>a = b\<close>.
\<close>

datatype jsval = JUndefined | JNull | JBool bool | JNum real | JStr jsstring | JRef nat

fun truthy :: "jsval \<Rightarrow> bool" where
  "truthy JUndefined = False"
| "truthy JNull = False"
| "truthy (JBool b) = b"
| "truthy (JNum x) = (x \<noteq> 0)"
| "truthy (JStr s) = (s \<noteq> [])"
| "truthy (JRef a) = True"

fun is_string :: "jsval \<Rightarrow> bool" where
  "is_string (JStr s) = True"
| "is_string _ = False"

text \<open>
  The numbers the script computes with are integers or NaN (the result of
  \<open>parseInt\<close> on a string without digits). Integers are exact: the model covers
  magnitudes below \<open>2^53\<close>, where a double holds every integer.
\<close>

datatype number = NaN | Finite int

fun num_add :: "number \<Rightarrow> number \<Rightarrow> number" where
  "num_add (Finite a) (Finite b) = Finite (a + b)"
| "num_add _ _ = NaN"

fun num_mul :: "number \<Rightarrow> number \<Rightarrow> number" where
  "num_mul (Finite a) (Finite b) = Finite (a * b)"
| "num_mul _ _ = NaN"

text \<open>\<open>a > b\<close>: every comparison with NaN is false.\<close>

fun num_gt :: "number \<Rightarrow> number \<Rightarrow> bool" where
  "num_gt (Finite a) (Finite b) = (b < a)"
| "num_gt _ _ = False"

section \<open>Strings: whitespace, digits, \<open>trim\<close>, \<open>parseInt\<close>\<close>

text \<open>
  ECMAScript's WhiteSpace and LineTerminator code points, which \<open>String.prototype.trim\<close>
  and \<open>parseInt\<close> strip.
\<close>

definition is_ws :: "jschar \<Rightarrow> bool" where
  "is_ws c \<longleftrightarrow>
     c \<in> {0x0009, 0x000A, 0x000B, 0x000C, 0x000D, 0x0020, 0x00A0, 0x1680,
          0x2028, 0x2029, 0x202F, 0x205F, 0x3000, 0xFEFF}
     \<or> (0x2000 \<le> c \<and> c \<le> 0x200A)"

definition trim :: "jsstring \<Rightarrow> jsstring" where
  "trim s = rev (dropWhile is_ws (rev (dropWhile is_ws s)))"

text \<open>The class \<open>\d\<close> of a regular expression: the ASCII digits.\<close>

definition is_digit :: "jschar \<Rightarrow> bool" where
  "is_digit c \<longleftrightarrow> 0x30 \<le> c \<and> c \<le> 0x39"

definition digit_val :: "jschar \<Rightarrow> int" where
  "digit_val c = uint c - 48"

definition colon :: jschar where
  "colon = 0x3A"

text \<open>
  \<open>parseInt(s, 10)\<close>: leading whitespace is skipped, one sign is read, and the
  longest run of decimal digits that follows is the value; with no digit the result is
  NaN. Radix 10 strips no \<open>0x\<close> prefix. The value is the exact integer, which is
  what \<open>parseInt\<close> returns as long as the digits denote less than \<open>2^53\<close>; from
  there on \<open>parseInt\<close> rounds to a double, and the definition does not describe it.
\<close>

definition parseInt10 :: "jsstring \<Rightarrow> number" where
  "parseInt10 s =
     (let t = dropWhile is_ws s;
          sign = (case t of c # r \<Rightarrow> if c = 0x2D then - 1 else 1 | [] \<Rightarrow> 1);
          u = (case t of c # r \<Rightarrow> if c = 0x2D \<or> c = 0x2B then r else t | [] \<Rightarrow> t);
          z = takeWhile is_digit u
      in if z = [] then NaN
         else Finite (sign * foldl (\<lambda>a c. 10 * a + digit_val c) 0 z))"

text \<open>
  \<open>parseInt(match[i], 10)\<close> on a capture group: a group that took no part in the
  match is \<open>undefined\<close>, whose string form has no digit.
\<close>

fun parseInt_group :: "jsstring option \<Rightarrow> number" where
  "parseInt_group None = NaN"
| "parseInt_group (Some s) = parseInt10 s"

section \<open>The duration pattern\<close>

text \<open>
  \<^verbatim>\<open>/^(\d{1,2}):(\d{2}):(\d{2})$|^(\d{1,2}):(\d{2})$/\<close>, matched as the
  backtracking matcher of \<open>String.prototype.match\<close> does: the alternatives are
  tried in order, both anchored at the start and at the end of the input.

  \<open>digits_1_2\<close> is \<open>(\d{1,2})\<close>: the candidates for the group with what is left of
  the input, the greedy one (two digits) first.
\<close>

fun digits_1_2 :: "jsstring \<Rightarrow> (jsstring \<times> jsstring) list" where
  "digits_1_2 (a # b # r) =
     (if is_digit a
      then (if is_digit b then [([a, b], r)] else []) @ [([a], b # r)]
      else [])"
| "digits_1_2 [a] = (if is_digit a then [([a], [])] else [])"
| "digits_1_2 [] = []"

text \<open>\<open>(\d{2})\<close>: the group and the rest.\<close>

fun digits_2 :: "jsstring \<Rightarrow> (jsstring \<times> jsstring) option" where
  "digits_2 (a # b # r) = (if is_digit a \<and> is_digit b then Some ([a, b], r) else None)"
| "digits_2 _ = None"

text \<open>A literal character: the rest of the input after it.\<close>

fun lit :: "jschar \<Rightarrow> jsstring \<Rightarrow> jsstring option" where
  "lit c (x # r) = (if x = c then Some r else None)"
| "lit c [] = None"

text \<open>\<open>:(\d{2})$\<close>, the tail of the second alternative.\<close>

definition ms_tail :: "jsstring \<Rightarrow> jsstring option" where
  "ms_tail r =
     (case lit colon r of
        None \<Rightarrow> None
      | Some r1 \<Rightarrow>
          (case digits_2 r1 of
             None \<Rightarrow> None
           | Some (s, r2) \<Rightarrow> if r2 = [] then Some s else None))"

text \<open>\<open>:(\d{2}):(\d{2})$\<close>, the tail of the first alternative.\<close>

definition hms_tail :: "jsstring \<Rightarrow> (jsstring \<times> jsstring) option" where
  "hms_tail r =
     (case lit colon r of
        None \<Rightarrow> None
      | Some r1 \<Rightarrow>
          (case digits_2 r1 of
             None \<Rightarrow> None
           | Some (m, r2) \<Rightarrow>
               (case ms_tail r2 of None \<Rightarrow> None | Some s \<Rightarrow> Some (m, s))))"

text \<open>The first candidate of the leading group whose tail matches.\<close>

fun first_match :: "('r \<Rightarrow> 't option) \<Rightarrow> ('g \<times> 'r) list \<Rightarrow> ('g \<times> 't) option" where
  "first_match tail [] = None"
| "first_match tail ((g, r) # cs) =
     (case tail r of Some t \<Rightarrow> Some (g, t) | None \<Rightarrow> first_match tail cs)"

text \<open>
  The match array: \<open>grp1\<close> to \<open>grp5\<close> are \<open>match[1]\<close> to \<open>match[5]\<close>, \<open>None\<close>
  for \<open>undefined\<close>.
\<close>

record match_groups =
  grp1 :: "jsstring option"
  grp2 :: "jsstring option"
  grp3 :: "jsstring option"
  grp4 :: "jsstring option"
  grp5 :: "jsstring option"

definition timePattern :: "jsstring \<Rightarrow> match_groups option" where
  "timePattern t =
     (case first_match hms_tail (digits_1_2 t) of
        Some (h, m, s) \<Rightarrow>
          Some \<lparr>grp1 = Some h, grp2 = Some m, grp3 = Some s, grp4 = None, grp5 = None\<rparr>
      | None \<Rightarrow>
          (case first_match ms_tail (digits_1_2 t) of
             Some (m, s) \<Rightarrow>
               Some \<lparr>grp1 = None, grp2 = None, grp3 = None, grp4 = Some m, grp5 = Some s\<rparr>
           | None \<Rightarrow> None))"

section \<open>\<open>parseTimeToSeconds\<close>\<close>

text \<open>
  The result is \<open>None\<close> for \<open>null\<close>. No statement of the body can throw: the guard
  lets only a string reach \<open>trim\<close> and \<open>match\<close>.
\<close>

definition parseTimeToSeconds :: "jsval \<Rightarrow> number option" where
  "parseTimeToSeconds timeStr =
     (if \<not> truthy timeStr then None
      else
        (case timeStr of
           JStr s \<Rightarrow>
             (case timePattern (trim s) of
                None \<Rightarrow> None
              | Some m \<Rightarrow>
                  if grp1 m \<noteq> None
                  then Some (num_add
                               (num_add (num_mul (parseInt_group (grp1 m)) (Finite 3600))
                                        (num_mul (parseInt_group (grp2 m)) (Finite 60)))
                               (parseInt_group (grp3 m)))
                  else if grp4 m \<noteq> None
                  then Some (num_add (num_mul (parseInt_group (grp4 m)) (Finite 60))
                                     (parseInt_group (grp5 m)))
                  else None)
         | _ \<Rightarrow> None))"

section \<open>The state of the page\<close>

text \<open>
  A custom-field definition of the catalog (\<open>customFields\<close>), a monitoring
  configuration (the values of the \<open>monitoredFields\<close> map), and a voice of the
  platform's catalog. A threshold is an integer: every path that writes one goes
  through \<open>parseInt(...) || 10\<close> or the literal 10, or reads back what was stored.
\<close>

record field_def =
  field_label :: jsstring
  field_type :: jsstring
  field_colour :: jsstring

record MonitorConfig =
  enabled :: bool
  threshold :: int
  voice :: jsstring
  language :: jsstring

record voice_info =
  voiceURI :: jsstring
  voice_name :: jsstring
  voice_lang :: jsstring

text \<open>
  An event of the runtime data: its \<open>id\<close> (a string; \<open>None\<close> when the event has
  none) and its \<open>custom\<close> object, the entries in the order \<open>Object.entries\<close>
  lists them (\<open>None\<close> when \<open>custom\<close> is missing or falsy). A top-level value of
  the runtime data is an event object or a primitive.
\<close>

record event =
  event_id :: "jsstring option"
  event_custom :: "(jsstring \<times> jsval) list option"

datatype rtval = REvent event | RPrim jsval

datatype eventType = Current | Next

text \<open>The string the source passes as \<open>eventType\<close>.\<close>

fun role_token :: "eventType \<Rightarrow> jsstring" where
  "role_token Current = js ''current''"
| "role_token Next = js ''next''"

text \<open>
  What \<open>speakValue\<close> is called with, and an utterance handed to the platform.
\<close>

type_synonym speak_request = "jsstring \<times> number \<times> MonitorConfig"

record utterance =
  utt_text :: jsstring
  utt_lang :: jsstring
  utt_rate :: real
  utt_voice :: "voice_info option"

text \<open>
  What the script has made of the two containers it fills: nothing yet (the static
  page), an informational paragraph, or the rows of the monitored fields; and for the
  add-field dropdown its options (value and label) with the add button's
  \<open>disabled\<close> flag.
\<close>

datatype container = Untouched | Info jsstring | Rows "(jsstring \<times> field_def \<times> MonitorConfig) list"

datatype dropdown = Static | Options "(jsstring \<times> jsstring) list" bool

text \<open>
  An item of \<open>localStorage\<close> under the configuration key: a text that
  \<open>JSON.parse\<close> rejects, or the members of the object that the text encodes.
  \<open>JSON.stringify\<close> followed by \<open>JSON.parse\<close> gives back the members it was
  given (strings, booleans and integers), so the text itself is not modelled.
\<close>

datatype item = Unparsable | ConfigDoc "(jsstring \<times> MonitorConfig) list"

text \<open>
  The module-level variables of the script, the parts of the platform it talks to, and
  \<open>speak_calls\<close>, the record of the calls of \<open>speakValue\<close> made so far (it is
  written only there and read by no function).

  \<^item> \<open>monitoredFields\<close> is a \<open>Map\<close>: an association list in insertion order;
    \<open>set\<close> is \<open>AList.update\<close> (an existing key keeps its place, a new one goes
    last), \<open>delete\<close> is \<open>AList.delete\<close>, \<open>get\<close> is \<open>map_of\<close>.
  \<^item> \<open>previousValues\<close> is a \<open>Map\<close> that is never iterated: a partial function.
  \<^item> \<open>timers\<close> are the pending callbacks of \<open>setTimeout(..., 100)\<close>, oldest first.
  \<^item> \<open>engine_queue\<close> holds the utterances the speech engine is speaking or has
    pending; \<open>interrupted\<close> those removed by \<open>cancel()\<close> whose error event is
    still to be delivered.
\<close>

record app =
  localData :: "jsstring \<rightharpoonup> rtval"
  customFields :: "(jsstring \<times> field_def) list"
  monitoredFields :: "(jsstring \<times> MonitorConfig) list"
  previousValues :: "jsstring \<rightharpoonup> jsval"
  speechSynthesis :: bool
  isSpeaking :: bool
  ttsSpeed :: real
  timers :: "speak_request list"
  engine_queue :: "utterance list"
  interrupted :: "utterance list"
  voices :: "voice_info list"
  tts_enabled :: bool
  stored_config :: "item option"
  fields_container :: container
  add_field_dropdown :: dropdown
  speak_calls :: "speak_request list"

text \<open>
  What the page is loaded with: whether the browser has a speech engine, the voices it
  offers, whether the TTS checkbox of the static page is ticked, and what
  \<open>localStorage\<close> holds under the configuration key.
\<close>

record platform =
  has_speech :: bool
  voice_catalog :: "voice_info list"
  checkbox_ticked :: bool
  saved_config :: "item option"

text \<open>
  The page when the script has been loaded: the initial values of the module's
  variables.
\<close>

definition page_load :: "platform \<Rightarrow> app" where
  "page_load p =
     \<lparr>localData = Map.empty, customFields = [], monitoredFields = [],
      previousValues = Map.empty, speechSynthesis = has_speech p, isSpeaking = False,
      ttsSpeed = 11 / 10, timers = [], engine_queue = [], interrupted = [],
      voices = voice_catalog p, tts_enabled = checkbox_ticked p,
      stored_config = saved_config p, fields_container = Untouched,
      add_field_dropdown = Static, speak_calls = []\<rparr>"

section \<open>The speech dispatcher\<close>

text \<open>The decimal string of a number, as a template literal renders it.\<close>

fun decimal :: "nat \<Rightarrow> jsstring" where
  "decimal n =
     (if n < 10 then [0x30 + of_nat n]
      else decimal (n div 10) @ [0x30 + of_nat (n mod 10)])"

fun number_string :: "number \<Rightarrow> jsstring" where
  "number_string NaN = js ''NaN''"
| "number_string (Finite n) = (if n < 0 then js ''-'' @ decimal (nat (- n)) else decimal (nat n))"

text \<open>
  \<open>speechSynthesis.cancel()\<close>: the engine's queue is emptied; each utterance removed
  still owes its error event.
\<close>

definition cancel :: "app \<Rightarrow> app" where
  "cancel st = st\<lparr>engine_queue := [], interrupted := interrupted st @ engine_queue st\<rparr>"

text \<open>
  \<open>speakValue\<close> up to the call of \<open>setTimeout\<close>. \<open>speechSynthesis.speaking ||
  speechSynthesis.pending\<close> holds when the engine's queue is not empty.
\<close>

definition speakValue :: "jsstring \<Rightarrow> number \<Rightarrow> MonitorConfig \<Rightarrow> app \<Rightarrow> app" where
  "speakValue fieldKey seconds config st0 =
     (let st = st0\<lparr>speak_calls := speak_calls st0 @ [(fieldKey, seconds, config)]\<rparr>
      in if \<not> speechSynthesis st then st
         else if isSpeaking st then st
         else
           (let st1 = (if engine_queue st \<noteq> [] then cancel st else st)
            in st1\<lparr>timers := timers st1 @ [(fieldKey, seconds, config)]\<rparr>))"

text \<open>The utterance the timer callback builds.\<close>

fun make_utterance :: "speak_request \<Rightarrow> app \<Rightarrow> utterance" where
  "make_utterance (fieldKey, seconds, config) st =
     \<lparr>utt_text = number_string seconds,
      utt_lang = (if language config \<noteq> [] then language config else js ''en-US''),
      utt_rate = ttsSpeed st,
      utt_voice =
        (if voice config \<noteq> []
         then List.find (\<lambda>v. voiceURI v = voice config \<or> voice_name v = voice config) (voices st)
         else None)\<rparr>"

text \<open>
  The callback of the oldest pending timer. \<open>returns\<close> tells whether
  \<open>speechSynthesis.speak\<close> returns or throws; the \<open>catch\<close> clears the flag.

  The callback closes over \<open>fieldKey\<close>, \<open>seconds\<close> and the \<open>config\<close> object
  itself, not a copy of it, and the handlers of a field's controls change that object in
  place. So the language and the voice of the utterance are those the object has when
  the callback runs: \<open>live\<close> is the object as it is then, while the timer holds it
  as it was at the call.
\<close>

definition speak_timeout :: "bool \<Rightarrow> MonitorConfig \<Rightarrow> app \<Rightarrow> app" where
  "speak_timeout returns live st =
     (case timers st of
        [] \<Rightarrow> st
      | req # rest \<Rightarrow>
          (let st1 = st\<lparr>timers := rest\<rparr>
           in if isSpeaking st1 then st1
              else
                (let st2 = st1\<lparr>isSpeaking := True\<rparr>;
                     u = make_utterance (fst req, fst (snd req), live) st2
                 in if returns then st2\<lparr>engine_queue := engine_queue st2 @ [u]\<rparr>
                    else st2\<lparr>isSpeaking := False\<rparr>)))"

text \<open>
  \<open>onend\<close> or \<open>onerror\<close> of the \<open>i\<close>-th utterance of the engine's queue: the
  utterance is over and its handler clears the flag.
\<close>

definition utterance_finished :: "nat \<Rightarrow> app \<Rightarrow> app" where
  "utterance_finished i st =
     (if i < length (engine_queue st)
      then st\<lparr>engine_queue := take i (engine_queue st) @ drop (Suc i) (engine_queue st),
              isSpeaking := False\<rparr>
      else st)"

text \<open>\<open>onerror\<close> of an utterance that \<open>cancel()\<close> had removed.\<close>

definition interrupted_event :: "nat \<Rightarrow> app \<Rightarrow> app" where
  "interrupted_event i st =
     (if i < length (interrupted st)
      then st\<lparr>interrupted := take i (interrupted st) @ drop (Suc i) (interrupted st),
              isSpeaking := False\<rparr>
      else st)"

text \<open>
  The \<open>change\<close> handler of the checkbox \<open>#tts-enabled\<close>: unticking it cancels
  what the engine holds (\<open>speechSynthesis?.cancel()\<close>) and clears the flag; it leaves
  the pending timers alone.
\<close>

definition on_tts_enabled_change :: "bool \<Rightarrow> app \<Rightarrow> app" where
  "on_tts_enabled_change checked st0 =
     (let st = st0\<lparr>tts_enabled := checked\<rparr>
      in if \<not> checked
         then (if speechSynthesis st then cancel st else st)\<lparr>isSpeaking := False\<rparr>
         else st)"

text \<open>
  The events of \<open>speakValue\<close>: a call of it, the callback of the oldest timer, the
  end or error of an utterance, the late error of a cancelled one, and any step of the
  rest of the script that leaves the dispatcher's variables alone.
\<close>

definition same_speech :: "app \<Rightarrow> app \<Rightarrow> bool" where
  "same_speech st st' \<longleftrightarrow>
     speechSynthesis st' = speechSynthesis st \<and> isSpeaking st' = isSpeaking st
     \<and> timers st' = timers st \<and> engine_queue st' = engine_queue st
     \<and> interrupted st' = interrupted st"

inductive dispatcher_step :: "app \<Rightarrow> app \<Rightarrow> bool" where
  call: "dispatcher_step st (speakValue fieldKey seconds config st)"
| timeout: "timers st \<noteq> [] \<Longrightarrow> dispatcher_step st (speak_timeout returns live st)"
| finished: "i < length (engine_queue st) \<Longrightarrow> dispatcher_step st (utterance_finished i st)"
| late: "i < length (interrupted st) \<Longrightarrow> dispatcher_step st (interrupted_event i st)"
| other: "same_speech st st' \<Longrightarrow> dispatcher_step st st'"

text \<open>
  The events that touch the speech state of the page: those of \<open>speakValue\<close> and a
  change of the TTS checkbox.
\<close>

inductive speech_step :: "app \<Rightarrow> app \<Rightarrow> bool" where
  dispatcher: "dispatcher_step st st' \<Longrightarrow> speech_step st st'"
| toggle: "speech_step st (on_tts_enabled_change checked st)"

text \<open>
  The states that the events of a relation reach from a page on which nothing has been
  spoken yet.
\<close>

definition speech_idle :: "app \<Rightarrow> bool" where
  "speech_idle st \<longleftrightarrow>
     \<not> isSpeaking st \<and> timers st = [] \<and> engine_queue st = [] \<and> interrupted st = []"

inductive reachable_by :: "(app \<Rightarrow> app \<Rightarrow> bool) \<Rightarrow> app \<Rightarrow> bool"
  for r :: "app \<Rightarrow> app \<Rightarrow> bool" where
  start: "speech_idle st \<Longrightarrow> reachable_by r st"
| step: "reachable_by r st \<Longrightarrow> r st st' \<Longrightarrow> reachable_by r st'"

section \<open>The monitoring engine\<close>

text \<open>\<open>previousValues.get(key)\<close>: \<open>undefined\<close> for a key the map does not hold.\<close>

definition cache_get :: "app \<Rightarrow> jsstring \<Rightarrow> jsval" where
  "cache_get st k = (case previousValues st k of None \<Rightarrow> JUndefined | Some v \<Rightarrow> v)"

text \<open>The template literal \<^verbatim>\<open>`${eventId}-${fieldKey}`\<close>.\<close>

definition uniqueKey :: "jsstring \<Rightarrow> jsstring \<Rightarrow> jsstring" where
  "uniqueKey eventId fieldKey = eventId @ js ''-'' @ fieldKey"

text \<open>
  The callback that \<open>checkEventFields\<close> passes to \<open>forEach\<close>, on one entry of the
  \<open>custom\<close> object.
\<close>

fun check_entry :: "jsstring \<Rightarrow> jsstring \<times> jsval \<Rightarrow> app \<Rightarrow> app" where
  "check_entry eventId (fieldKey, fieldValue) st =
     (case map_of (monitoredFields st) fieldKey of
        None \<Rightarrow> st
      | Some config \<Rightarrow>
          if \<not> enabled config then st
          else if cache_get st (uniqueKey eventId fieldKey) = fieldValue then st
          else
            (let st1 = st\<lparr>previousValues :=
                           (previousValues st)(uniqueKey eventId fieldKey \<mapsto> fieldValue)\<rparr>
             in if \<not> truthy fieldValue \<or> \<not> is_string fieldValue then st1
                else
                  (case parseTimeToSeconds fieldValue of
                     None \<Rightarrow> st1
                   | Some seconds \<Rightarrow>
                       if num_gt seconds (Finite (threshold config)) then st1
                       else speakValue fieldKey seconds config st1)))"

text \<open>\<open>event?.id || eventType\<close>: a missing or empty id is falsy.\<close>

fun eventId_of :: "rtval option \<Rightarrow> eventType \<Rightarrow> jsstring" where
  "eventId_of (Some (REvent e)) eventType =
     (case event_id e of
        Some i \<Rightarrow> if i \<noteq> [] then i else role_token eventType
      | None \<Rightarrow> role_token eventType)"
| "eventId_of _ eventType = role_token eventType"

text \<open>The \<open>eventId\<close> that \<open>checkEventFields\<close> computes before its loop.\<close>

definition current_eventId :: "app \<Rightarrow> eventType \<Rightarrow> jsstring" where
  "current_eventId st eventType =
     eventId_of (if eventType = Current then localData st (js ''eventNow'')
                 else localData st (js ''eventNext''))
                eventType"

definition checkEventFields :: "(jsstring \<times> jsval) list \<Rightarrow> eventType \<Rightarrow> app \<Rightarrow> app" where
  "checkEventFields customValues eventType st =
     fold (check_entry (current_eventId st eventType)) customValues st"

text \<open>\<open>ev && ev.custom\<close>, when it is truthy.\<close>

fun custom_of :: "rtval option \<Rightarrow> (jsstring \<times> jsval) list option" where
  "custom_of (Some (REvent e)) = event_custom e"
| "custom_of _ = None"

text \<open>
  \<open>checkMonitoredFields\<close>. The summary list that \<open>updateMonitoringDisplay\<close> renders
  at the end is display only and is left out, as is \<open>updateCurrentValues\<close> below.
\<close>

definition checkMonitoredFields :: "app \<Rightarrow> app" where
  "checkMonitoredFields st =
     (let st1 = (case custom_of (localData st (js ''eventNow'')) of
                   Some customValues \<Rightarrow> checkEventFields customValues Current st
                 | None \<Rightarrow> st)
      in case custom_of (localData st (js ''eventNext'')) of
           Some customValues \<Rightarrow> checkEventFields customValues Next st1
         | None \<Rightarrow> st1)"

section \<open>The socket\<close>

text \<open>
  \<open>localData = { ...localData, ...payload }\<close>, then the check of the monitored fields
  when the TTS checkbox is ticked.
\<close>

definition handleOntimePayload :: "(jsstring \<rightharpoonup> rtval) \<Rightarrow> app \<Rightarrow> app" where
  "handleOntimePayload payload st =
     (let st1 = st\<lparr>localData := localData st ++ payload\<rparr>
      in if tts_enabled st1 then checkMonitoredFields st1 else st1)"

text \<open>
  A frame of the socket: a text that \<open>JSON.parse\<close> rejects, or an envelope with its
  \<open>tag\<close> and its \<open>payload\<close> object. The handler of a rejected text throws before it
  has touched anything.
\<close>

datatype frame = Rejected | Envelope jsval "jsstring \<rightharpoonup> rtval"

datatype js_error = SyntaxError

fun onmessage :: "frame \<Rightarrow> app \<Rightarrow> js_error + app" where
  "onmessage Rejected st = Inl SyntaxError"
| "onmessage (Envelope tag payload) st =
     (if tag = JStr (js ''runtime-data'') then Inr (handleOntimePayload payload st)
      else Inr st)"

section \<open>Plain objects used as dictionaries\<close>

text \<open>
  \<open>customFields\<close> and the \<open>config\<close> object of \<open>saveConfiguration\<close> are plain
  objects, so they inherit the members of \<open>Object.prototype\<close>. Reading
  \<open>obj[key]\<close> finds an own property or else an inherited member, each of which is
  truthy. Assigning \<open>obj[key] = value\<close> makes an own property, except for the key
  \<open>__proto__\<close>: there the inherited setter replaces the prototype and no own property
  appears, so \<open>JSON.stringify\<close> does not list it.
\<close>

definition object_prototype_names :: "jsstring list" where
  "object_prototype_names =
     map js [''constructor'', ''__defineGetter__'', ''__defineSetter__'', ''hasOwnProperty'',
             ''__lookupGetter__'', ''__lookupSetter__'', ''isPrototypeOf'',
             ''propertyIsEnumerable'', ''toString'', ''valueOf'', ''__proto__'',
             ''toLocaleString'']"

text \<open>Whether \<open>customFields[key]\<close> is truthy; the catalog's own values are objects.\<close>

definition has_field :: "(jsstring \<times> field_def) list \<Rightarrow> jsstring \<Rightarrow> bool" where
  "has_field catalog key \<longleftrightarrow>
     map_of catalog key \<noteq> None \<or> key \<in> set object_prototype_names"

text \<open>\<open>config[key] = value\<close> for a value that is an object.\<close>

definition obj_assign ::
  "(jsstring \<times> 'v) list \<Rightarrow> jsstring \<Rightarrow> 'v \<Rightarrow> (jsstring \<times> 'v) list" where
  "obj_assign obj key v = (if key = js ''__proto__'' then obj else AList.update key v obj)"

section \<open>The configuration: rendering, storage and the handlers of the controls\<close>

definition default_config :: MonitorConfig where
  "default_config = \<lparr>enabled = False, threshold = 10, voice = [], language = js ''en-US''\<rparr>"

text \<open>\<open>monitoredFields.get(fieldKey) || { ...defaults }\<close>.\<close>

definition config_or_default :: "app \<Rightarrow> jsstring \<Rightarrow> MonitorConfig" where
  "config_or_default st fieldKey =
     (case map_of (monitoredFields st) fieldKey of Some c \<Rightarrow> c | None \<Rightarrow> default_config)"

definition is_text_field :: "field_def \<Rightarrow> bool" where
  "is_text_field field \<longleftrightarrow> field_type field = js ''text''"

definition populateAddFieldDropdown :: "app \<Rightarrow> app" where
  "populateAddFieldDropdown st =
     (let textFields =
            filter (\<lambda>(key, field). is_text_field field \<and> map_of (monitoredFields st) key = None)
                   (customFields st)
      in st\<lparr>add_field_dropdown :=
              Options (([], js ''Select a field to add...'')
                       # map (\<lambda>(key, field). (key, field_label field)) textFields)
                      (textFields = [])\<rparr>)"

definition renderFieldsConfiguration :: "app \<Rightarrow> app" where
  \<open>renderFieldsConfiguration st =
     (let textFields = filter (\<lambda>(key, field). is_text_field field) (customFields st)
      in if textFields = []
         then st\<lparr>fields_container := Info (js
                ''<p class="info-text">No text custom fields found. Create some in Ontime settings first.</p>'')\<rparr>
         else
           (let fieldsToShow =
                  filter (\<lambda>(key, field). key \<in> set (map fst (monitoredFields st))) textFields
            in if fieldsToShow = []
               then st\<lparr>fields_container := Info (js
                      ''<p class="info-text">No fields configured. Use "Add Field" to start monitoring.</p>'')\<rparr>
               else populateAddFieldDropdown
                      (st\<lparr>fields_container :=
                            Rows (map (\<lambda>(key, field). (key, field, config_or_default st key))
                                      fieldsToShow)\<rparr>)))\<close>

text \<open>
  \<open>saveConfiguration\<close>: the map is copied into a plain object, whose own members are
  what \<open>localStorage\<close> receives under \<open>ontime-tts-config\<close>. (JavaScript lists
  the integer-like keys of an object first; the members are kept here in the order of
  their insertion, and nothing below depends on their order.)
\<close>

definition saveConfiguration :: "app \<Rightarrow> app" where
  "saveConfiguration st =
     st\<lparr>stored_config :=
          Some (ConfigDoc (fold (\<lambda>(key, v) config. obj_assign config key v)
                                (monitoredFields st) []))\<rparr>"

text \<open>
  \<open>loadSavedConfiguration\<close>: nothing is done without a stored text; a text that does
  not parse is caught and logged.
\<close>

definition loadSavedConfiguration :: "app \<Rightarrow> app" where
  "loadSavedConfiguration st =
     (case stored_config st of
        None \<Rightarrow> st
      | Some Unparsable \<Rightarrow> st
      | Some (ConfigDoc config) \<Rightarrow>
          renderFieldsConfiguration
            (st\<lparr>monitoredFields :=
                  fold (\<lambda>(key, v) monitored.
                          if has_field (customFields st) key then AList.update key v monitored
                          else monitored)
                       config (monitoredFields st)\<rparr>))"

text \<open>\<open>x || 10\<close> for a number \<open>x\<close>: NaN and zero are falsy.\<close>

fun or_default :: "number \<Rightarrow> int \<Rightarrow> int" where
  "or_default NaN d = d"
| "or_default (Finite n) d = (if n = 0 then d else n)"

text \<open>
  The \<open>change\<close> listener of the document, by the class of the control that changed;
  the second argument is \<open>e.target.checked\<close> or \<open>e.target.value\<close>.
\<close>

definition on_field_enabled_change :: "jsstring \<Rightarrow> bool \<Rightarrow> app \<Rightarrow> app" where
  "on_field_enabled_change fieldKey checked st =
     saveConfiguration
       (st\<lparr>monitoredFields :=
             AList.update fieldKey ((config_or_default st fieldKey)\<lparr>enabled := checked\<rparr>)
                          (monitoredFields st)\<rparr>)"

definition on_field_threshold_change :: "jsstring \<Rightarrow> jsstring \<Rightarrow> app \<Rightarrow> app" where
  "on_field_threshold_change fieldKey input st =
     saveConfiguration
       (st\<lparr>monitoredFields :=
             AList.update fieldKey
               ((config_or_default st fieldKey)\<lparr>threshold := or_default (parseInt10 input) 10\<rparr>)
               (monitoredFields st)\<rparr>)"

definition on_field_language_change :: "jsstring \<Rightarrow> jsstring \<Rightarrow> app \<Rightarrow> app" where
  "on_field_language_change fieldKey input st =
     saveConfiguration
       (st\<lparr>monitoredFields :=
             AList.update fieldKey
               ((config_or_default st fieldKey)\<lparr>language := input, voice := []\<rparr>)
               (monitoredFields st)\<rparr>)"

definition on_field_voice_change :: "jsstring \<Rightarrow> jsstring \<Rightarrow> app \<Rightarrow> app" where
  "on_field_voice_change fieldKey input st =
     saveConfiguration
       (st\<lparr>monitoredFields :=
             AList.update fieldKey ((config_or_default st fieldKey)\<lparr>voice := input\<rparr>)
                          (monitoredFields st)\<rparr>)"

text \<open>The click on a field's Remove button.\<close>

definition on_remove_click :: "jsstring \<Rightarrow> app \<Rightarrow> app" where
  "on_remove_click fieldKey st =
     renderFieldsConfiguration
       (saveConfiguration
          (st\<lparr>monitoredFields := AList.delete fieldKey (monitoredFields st),
               previousValues := (previousValues st)(fieldKey := None)\<rparr>))"

text \<open>The click on Add Field, with the dropdown's selected value.\<close>

definition on_add_click :: "jsstring \<Rightarrow> app \<Rightarrow> app" where
  "on_add_click fieldKey st =
     (if fieldKey \<noteq> [] \<and> has_field (customFields st) fieldKey
      then populateAddFieldDropdown
             (renderFieldsConfiguration
                (saveConfiguration
                   (st\<lparr>monitoredFields :=
                         AList.update fieldKey
                           \<lparr>enabled = True, threshold = 10, voice = [], language = js ''en-US''\<rparr>
                           (monitoredFields st)\<rparr>)))
      else st)"

section \<open>The field catalog\<close>

text \<open>
  What the one \<open>fetch\<close> of \<open>loadCustomFields\<close> comes back with: a network error
  (the promise rejects), or a response with its status and, if its body is JSON, the
  catalog object it encodes. \<open>response.ok\<close> holds for the statuses 200 to 299.
\<close>

datatype fetch_outcome = NetworkError | Response nat "(jsstring \<times> field_def) list option"

definition response_ok :: "nat \<Rightarrow> bool" where
  "response_ok status \<longleftrightarrow> 200 \<le> status \<and> status \<le> 299"

definition msg_no_fields :: jsstring where
  \<open>msg_no_fields =
     js ''<p class="info-text">No custom fields found. Create some in Ontime settings first.</p>''\<close>

definition msg_error_status :: "nat \<Rightarrow> jsstring" where
  \<open>msg_error_status status =
     js ''<p class="info-text">Error loading custom fields ('' @ decimal status
     @ js ''). Check console for details.</p>''\<close>

definition msg_error :: jsstring where
  \<open>msg_error =
     js ''<p class="info-text">Error loading custom fields. Check console for details.</p>''\<close>

text \<open>
  \<open>loadCustomFields\<close>, from the point where the fetch has settled. A body that is not
  JSON makes \<open>response.json()\<close> reject, which the \<open>catch\<close> handles like a network
  error. The function returns after one fetch: nothing in it schedules another.
\<close>

fun loadCustomFields :: "fetch_outcome \<Rightarrow> app \<Rightarrow> app" where
  "loadCustomFields NetworkError st = st\<lparr>fields_container := Info msg_error\<rparr>"
| "loadCustomFields (Response status body) st =
     (if response_ok status
      then
        (case body of
           None \<Rightarrow> st\<lparr>fields_container := Info msg_error\<rparr>
         | Some catalog \<Rightarrow>
             (let st1 = st\<lparr>customFields := catalog\<rparr>
              in if length catalog = 0
                 then populateAddFieldDropdown (st1\<lparr>fields_container := Info msg_no_fields\<rparr>)
                 else populateAddFieldDropdown (renderFieldsConfiguration st1)))
      else st\<lparr>fields_container := Info (msg_error_status status)\<rparr>)"

section \<open>Vocabulary of the statements\<close>

text \<open>
  The code unit of a decimal digit, and the number a sequence of decimal digits
  denotes. Both are used only to state what the parser computes.
\<close>

definition dg :: "nat \<Rightarrow> jschar" where
  "dg d = 0x30 + of_nat d"

definition decval :: "nat list \<Rightarrow> nat" where
  "decval ds = foldl (\<lambda>a d. 10 * a + d) 0 ds"

text \<open>
  The duration grammar in the words of the specification: the trimmed text is two or
  three fields separated by colons; with three fields, one or two hour digits and
  exactly two minute and two second digits; with two fields, one or two minute digits
  and exactly two second digits.
\<close>

fun fields_of :: "jsstring \<Rightarrow> jsstring list" where
  "fields_of [] = [[]]"
| "fields_of (c # cs) =
     (if c = colon then [] # fields_of cs
      else (case fields_of cs of f # fs \<Rightarrow> (c # f) # fs | [] \<Rightarrow> [[c]]))"

definition duration_grammar :: "jsstring \<Rightarrow> bool" where
  "duration_grammar t \<longleftrightarrow>
     (case fields_of t of
        [h, m, s] \<Rightarrow>
          list_all is_digit (h @ m @ s) \<and> (length h = 1 \<or> length h = 2)
          \<and> length m = 2 \<and> length s = 2
      | [m, s] \<Rightarrow>
          list_all is_digit (m @ s) \<and> (length m = 1 \<or> length m = 2) \<and> length s = 2
      | _ \<Rightarrow> False)"

text \<open>The calls of \<open>speakValue\<close> made on the way from one state to a later one.\<close>

definition handed :: "app \<Rightarrow> app \<Rightarrow> speak_request list" where
  "handed st st' = drop (length (speak_calls st)) (speak_calls st')"

text \<open>
  A browser with a speech engine, no stored configuration and the TTS checkbox ticked;
  and a page used in the examples: one monitored field, \<open>timer\<close>, enabled with the
  threshold 10.
\<close>

definition desktop :: platform where
  "desktop =
     \<lparr>has_speech = True, voice_catalog = [], checkbox_ticked = True, saved_config = None\<rparr>"

definition timer_config :: MonitorConfig where
  "timer_config = \<lparr>enabled = True, threshold = 10, voice = [], language = js ''en-US''\<rparr>"

definition timer_field :: field_def where
  "timer_field = \<lparr>field_label = js ''Timer'', field_type = js ''text'', field_colour = js ''red''\<rparr>"

definition timer_page :: app where
  "timer_page =
     (page_load desktop)
       \<lparr>customFields := [(js ''timer'', timer_field)],
        monitoredFields := [(js ''timer'', timer_config)]\<rparr>"

text \<open>
  The example page with some runtime data in it, and an event that carries the
  monitored field.
\<close>

definition clock_page :: app where
  "clock_page = timer_page\<lparr>localData := [js ''clock'' \<mapsto> RPrim (JNum 7)]\<rparr>"

definition timer_event :: rtval where
  "timer_event =
     REvent \<lparr>event_id = Some (js ''ev1''),
             event_custom = Some [(js ''timer'', JStr (js ''00:05''))]\<rparr>"






text \<open>
  A page that monitors the fields \<open>b-c\<close> and \<open>c\<close>, and a payload whose
  current event has the id \<open>a\<close> and whose next event has the id \<open>a-b\<close>: the
  two fields have the same composite key \<open>a-b-c\<close>.
\<close>

definition shared_key_page :: app where
  "shared_key_page =
     (page_load desktop)
       \<lparr>customFields := [(js ''b-c'', timer_field), (js ''c'', timer_field)],
        monitoredFields := [(js ''b-c'', timer_config), (js ''c'', timer_config)]\<rparr>"

definition shared_key_payload :: "jsstring \<rightharpoonup> rtval" where
  "shared_key_payload =
     [js ''eventNow'' \<mapsto>
        REvent \<lparr>event_id = Some (js ''a''),
                event_custom = Some [(js ''b-c'', JStr (js ''00:05''))]\<rparr>,
      js ''eventNext'' \<mapsto>
        REvent \<lparr>event_id = Some (js ''a-b''),
                event_custom = Some [(js ''c'', JStr (js ''00:07''))]\<rparr>]"

text \<open>
  A page with two text fields in the catalog, both monitored, on which the row of
  \<open>timer\<close> can be removed and the dropdown then offers \<open>timer\<close> again.
\<close>

definition two_field_page :: app where
  "two_field_page =
     (page_load desktop)
       \<lparr>customFields := [(js ''timer'', timer_field), (js ''note'', timer_field)],
        monitoredFields := [(js ''timer'', timer_config), (js ''note'', timer_config)]\<rparr>"

text \<open>
  A page that monitors the fields \<open>b\<close> and \<open>a-b\<close> while the current event has
  the id \<open>a\<close>.
\<close>

definition hyphen_page :: app where
  "hyphen_page =
     (page_load desktop)
       \<lparr>localData := [js ''eventNow'' \<mapsto>
           REvent \<lparr>event_id = Some (js ''a''),
                   event_custom = Some [(js ''b'', JStr (js ''00:05''))]\<rparr>],
        customFields := [(js ''b'', timer_field), (js ''a-b'', timer_field)],
        monitoredFields := [(js ''b'', timer_config), (js ''a-b'', timer_config)]\<rparr>"

text \<open>
  A page is loaded again: the script's variables start afresh, \<open>localStorage\<close> keeps
  what was stored, the catalog is fetched, and the stored configuration is loaded. This
  is the use \<open>loadSavedConfiguration\<close> is written for; the script defines the
  function and has no call of it.
\<close>

definition reload :: "platform \<Rightarrow> (jsstring \<times> field_def) list \<Rightarrow> app \<Rightarrow> app" where
  "reload p catalog st =
     loadSavedConfiguration
       ((page_load (p\<lparr>saved_config := stored_config st\<rparr>))\<lparr>customFields := catalog\<rparr>)"

text \<open>
  Example pages for the stored configuration. The catalog of \<open>stale_page\<close> and of
  \<open>constructor_page\<close> has the field \<open>timer\<close> only, and their maps hold an entry
  for a field that the catalog does not have: \<open>old\<close>, and \<open>constructor\<close>, the
  name of a member that plain objects inherit. The catalog of \<open>proto_page\<close> has the
  field \<open>__proto__\<close>, and the map monitors it.
\<close>

definition stale_page :: app where
  "stale_page =
     timer_page\<lparr>monitoredFields := [(js ''timer'', timer_config), (js ''old'', timer_config)]\<rparr>"

definition proto_page :: app where
  "proto_page =
     (page_load desktop)
       \<lparr>customFields := [(js ''__proto__'', timer_field)],
        monitoredFields := [(js ''__proto__'', timer_config)]\<rparr>"

definition constructor_page :: app where
  "constructor_page = timer_page\<lparr>monitoredFields := [(js ''constructor'', timer_config)]\<rparr>"

text \<open>
  What holds as long as the TTS checkbox is left alone: no cancelled utterance is
  outstanding, the engine holds at most one utterance, and it holds one only while the
  flag is set.
\<close>

definition gate_inv :: "app \<Rightarrow> bool" where
  "gate_inv st \<longleftrightarrow>
     interrupted st = [] \<and> length (engine_queue st) \<le> 1
     \<and> (engine_queue st \<noteq> [] \<longrightarrow> isSpeaking st)"

text \<open>
  The example page after \<open>timer\<close> has been handed over and its timer is pending;
  and the page after that timer has fired and a second field has been handed over while
  the first is being spoken.
\<close>

definition waiting_page :: app where
  "waiting_page = speakValue (js ''timer'') (Finite 5) timer_config timer_page"

definition speaking_page :: app where
  "speaking_page =
     speakValue (js ''other'') (Finite 3) timer_config
       (speak_timeout True timer_config waiting_page)"

text \<open>
  A run with the TTS checkbox in it. While \<open>"5"\<close> is being spoken the checkbox is
  unticked and ticked again; then the fields \<open>a\<close> and \<open>b\<close> are handed over
  with 3 and 4 seconds, as one payload does that changes both; the timer of \<open>a\<close>
  fires; and the error event of the cancelled \<open>"5"\<close> is delivered. In
  \<open>toggle_run\<close> the timer of \<open>b\<close> has fired as well.
\<close>

definition switched_off_page :: app where
  "switched_off_page =
     on_tts_enabled_change False (speak_timeout True timer_config waiting_page)"

definition released_run :: app where
  "released_run =
     interrupted_event 0
       (speak_timeout True timer_config
          (speakValue (js ''b'') (Finite 4) timer_config
             (speakValue (js ''a'') (Finite 3) timer_config
                (on_tts_enabled_change True switched_off_page))))"

definition toggle_run :: app where
  "toggle_run = speak_timeout True timer_config released_run"

section \<open>Digits, whitespace and \<open>trim\<close>\<close>

lemma dg_cases: "d < 10 \<Longrightarrow> dg d \<in> {0x30, 0x31, 0x32, 0x33, 0x34, 0x35, 0x36, 0x37, 0x38, 0x39}"
  unfolding dg_def
  by (cases "d = 0"; cases "d = 1"; cases "d = 2"; cases "d = 3"; cases "d = 4"; cases "d = 5";
      cases "d = 6"; cases "d = 7"; cases "d = 8"; cases "d = 9") auto

lemma dg_digit: "d < 10 \<Longrightarrow> is_digit (dg d)"
  using dg_cases[of d] by (auto simp: is_digit_def)

lemma dg_val: "d < 10 \<Longrightarrow> digit_val (dg d) = int d"
  unfolding dg_def digit_val_def
  by (cases "d = 0"; cases "d = 1"; cases "d = 2"; cases "d = 3"; cases "d = 4"; cases "d = 5";
      cases "d = 6"; cases "d = 7"; cases "d = 8"; cases "d = 9") auto

lemma digit_not_ws: "is_digit c \<Longrightarrow> \<not> is_ws c"
  by (auto simp: is_digit_def is_ws_def word_le_nat_alt)

lemma digit_not_colon: "is_digit c \<Longrightarrow> c \<noteq> colon"
  by (auto simp: is_digit_def colon_def)

lemma digit_not_sign: "is_digit c \<Longrightarrow> c \<noteq> 0x2D \<and> c \<noteq> 0x2B"
  by (auto simp: is_digit_def)

text \<open>Trimming removes exactly the whitespace around a core that has none at its ends.\<close>

lemma trim_pad:
  assumes "list_all is_ws pre" "list_all is_ws post" "core \<noteq> []"
    "\<not> is_ws (hd core)" "\<not> is_ws (last core)"
  shows "trim (pre @ core @ post) = core"
proof -
  have a: "dropWhile is_ws (pre @ core @ post) = core @ post"
    using assms(1,3,4) by (cases core) (auto simp: dropWhile_append list_all_iff)
  have b: "dropWhile is_ws (rev post @ rev core) = rev core"
    using assms(2,3,5) by (cases core rule: rev_cases) (auto simp: dropWhile_append list_all_iff)
  show ?thesis by (simp add: trim_def a b)
qed

lemma parseInt10_one: "d < 10 \<Longrightarrow> parseInt10 [dg d] = Finite (int d)"
  using dg_digit[of d] digit_not_ws[of "dg d"] digit_not_sign[of "dg d"]
  by (simp add: parseInt10_def dg_val)

lemma parseInt10_two:
  "a < 10 \<Longrightarrow> b < 10 \<Longrightarrow> parseInt10 [dg a, dg b] = Finite (int (10 * a + b))"
  using dg_digit[of a] dg_digit[of b] digit_not_ws[of "dg a"] digit_not_sign[of "dg a"]
  by (simp add: parseInt10_def dg_val)

section \<open>The pattern on the four shapes it accepts\<close>

lemma pattern_hms1:
  assumes "is_digit h" "is_digit m1" "is_digit m2" "is_digit s1" "is_digit s2"
  shows "timePattern [h, colon, m1, m2, colon, s1, s2] =
    Some \<lparr>grp1 = Some [h], grp2 = Some [m1, m2], grp3 = Some [s1, s2],
          grp4 = None, grp5 = None\<rparr>"
  using assms digit_not_colon[of m1]
  by (simp add: timePattern_def hms_tail_def ms_tail_def)

lemma pattern_hms2:
  assumes "is_digit h1" "is_digit h2" "is_digit m1" "is_digit m2" "is_digit s1" "is_digit s2"
  shows "timePattern [h1, h2, colon, m1, m2, colon, s1, s2] =
    Some \<lparr>grp1 = Some [h1, h2], grp2 = Some [m1, m2], grp3 = Some [s1, s2],
          grp4 = None, grp5 = None\<rparr>"
  using assms
  by (simp add: timePattern_def hms_tail_def ms_tail_def)

lemma pattern_ms1:
  assumes "is_digit m" "is_digit s1" "is_digit s2"
  shows "timePattern [m, colon, s1, s2] =
    Some \<lparr>grp1 = None, grp2 = None, grp3 = None, grp4 = Some [m], grp5 = Some [s1, s2]\<rparr>"
  using assms digit_not_colon[of s1]
  by (simp add: timePattern_def hms_tail_def ms_tail_def)

lemma pattern_ms2:
  assumes "is_digit m1" "is_digit m2" "is_digit s1" "is_digit s2"
  shows "timePattern [m1, m2, colon, s1, s2] =
    Some \<lparr>grp1 = None, grp2 = None, grp3 = None, grp4 = Some [m1, m2], grp5 = Some [s1, s2]\<rparr>"
  using assms digit_not_colon[of s1] digit_not_colon[of m2]
  by (simp add: timePattern_def hms_tail_def ms_tail_def)

lemma length_one: "length xs = Suc 0 \<Longrightarrow> \<exists>a. xs = [a]"
  by (cases xs) auto

lemma length_two: "length xs = 2 \<Longrightarrow> \<exists>a b. xs = [a, b]"
  by (cases xs; cases "tl xs") auto

lemma parse_hms:
  assumes ws: "list_all is_ws pre" "list_all is_ws post"
    and len: "length hs = 1 \<or> length hs = 2" "length ms = 2" "length ss = 2"
    and dig: "list_all (\<lambda>d. d < 10) (hs @ ms @ ss)"
  shows "parseTimeToSeconds
           (JStr (pre @ (map dg hs @ colon # map dg ms @ colon # map dg ss) @ post))
         = Some (Finite (int (decval hs) * 3600 + int (decval ms) * 60 + int (decval ss)))"
proof -
  obtain m1 m2 where ms: "ms = [m1, m2]" using length_two[OF len(2)] by blast
  obtain s1 s2 where ss: "ss = [s1, s2]" using length_two[OF len(3)] by blast
  have d: "m1 < 10" "m2 < 10" "s1 < 10" "s2 < 10" using dig by (simp_all add: ms ss)
  from len(1) show ?thesis
  proof
    assume "length hs = 1"
    then obtain h where hs: "hs = [h]" using length_one by auto
    have h: "h < 10" using dig by (simp add: hs)
    let ?core = "[dg h, colon, dg m1, dg m2, colon, dg s1, dg s2]"
    have t: "trim (pre @ ?core @ post) = ?core"
      using ws h d by (intro trim_pad) (simp_all add: digit_not_ws dg_digit)
    show ?thesis
      using h d t by (simp add: parseTimeToSeconds_def hs ms ss pattern_hms1 dg_digit
          parseInt10_one parseInt10_two decval_def)
  next
    assume "length hs = 2"
    then obtain h1 h2 where hs: "hs = [h1, h2]" using length_two by blast
    have h: "h1 < 10" "h2 < 10" using dig by (simp_all add: hs)
    let ?core = "[dg h1, dg h2, colon, dg m1, dg m2, colon, dg s1, dg s2]"
    have t: "trim (pre @ ?core @ post) = ?core"
      using ws h d by (intro trim_pad) (simp_all add: digit_not_ws dg_digit)
    show ?thesis
      using h d t by (simp add: parseTimeToSeconds_def hs ms ss pattern_hms2 dg_digit
          parseInt10_two decval_def)
  qed
qed

lemma parse_ms:
  assumes ws: "list_all is_ws pre" "list_all is_ws post"
    and len: "length ms = 1 \<or> length ms = 2" "length ss = 2"
    and dig: "list_all (\<lambda>d. d < 10) (ms @ ss)"
  shows "parseTimeToSeconds (JStr (pre @ (map dg ms @ colon # map dg ss) @ post))
         = Some (Finite (int (decval ms) * 60 + int (decval ss)))"
proof -
  obtain s1 s2 where ss: "ss = [s1, s2]" using length_two[OF len(2)] by blast
  have d: "s1 < 10" "s2 < 10" using dig by (simp_all add: ss)
  from len(1) show ?thesis
  proof
    assume "length ms = 1"
    then obtain m where ms: "ms = [m]" using length_one by auto
    have h: "m < 10" using dig by (simp add: ms)
    let ?core = "[dg m, colon, dg s1, dg s2]"
    have t: "trim (pre @ ?core @ post) = ?core"
      using ws h d by (intro trim_pad) (simp_all add: digit_not_ws dg_digit)
    show ?thesis
      using h d t by (simp add: parseTimeToSeconds_def ms ss pattern_ms1 dg_digit
          parseInt10_one parseInt10_two decval_def)
  next
    assume "length ms = 2"
    then obtain m1 m2 where ms: "ms = [m1, m2]" using length_two by blast
    have h: "m1 < 10" "m2 < 10" using dig by (simp_all add: ms)
    let ?core = "[dg m1, dg m2, colon, dg s1, dg s2]"
    have t: "trim (pre @ ?core @ post) = ?core"
      using ws h d by (intro trim_pad) (simp_all add: digit_not_ws dg_digit)
    show ?thesis
      using h d t by (simp add: parseTimeToSeconds_def ms ss pattern_ms2 dg_digit
          parseInt10_two decval_def)
  qed
qed

lemmas eval_parse =
  parseTimeToSeconds_def js_def trim_def is_ws_def timePattern_def is_digit_def
  hms_tail_def ms_tail_def colon_def parseInt10_def digit_val_def

section \<open>What the parser returns on a duration\<close>

text \<open>
  Claim C1, as the code has it. For every input that, after trimming the surrounding
  whitespace, is \<open>H:MM:SS\<close> or \<open>HH:MM:SS\<close> (one or two hour digits, exactly two
  minute digits and two second digits), \<open>parseTimeToSeconds\<close> returns
  \<open>hours * 3600 + minutes * 60 + seconds\<close>; for every input that is \<open>M:SS\<close> or
  \<open>MM:SS\<close> it returns \<open>minutes * 60 + seconds\<close>. No upper bound is put on the
  minute and second digits: \<open>"1:99"\<close> parses to \<open>1 * 60 + 99 = 159\<close> seconds.
\<close>

theorem parseTimeToSeconds_durations:
  assumes "list_all is_ws pre" and "list_all is_ws post"
    and "length hs = 1 \<or> length hs = 2" and "length ms = 2" and "length ss = 2"
    and "length mm = 1 \<or> length mm = 2"
    and "list_all (\<lambda>d. d < 10) (hs @ ms @ ss @ mm)"
  shows "parseTimeToSeconds
           (JStr (pre @ (map dg hs @ colon # map dg ms @ colon # map dg ss) @ post))
         = Some (Finite (int (decval hs) * 3600 + int (decval ms) * 60 + int (decval ss)))
       \<and> parseTimeToSeconds (JStr (pre @ (map dg mm @ colon # map dg ss) @ post))
         = Some (Finite (int (decval mm) * 60 + int (decval ss)))
       \<and> parseTimeToSeconds (JStr (js ''1:99'')) = Some (Finite 159)"
proof (intro conjI)
  show "parseTimeToSeconds
           (JStr (pre @ (map dg hs @ colon # map dg ms @ colon # map dg ss) @ post))
         = Some (Finite (int (decval hs) * 3600 + int (decval ms) * 60 + int (decval ss)))"
    using assms by (intro parse_hms) simp_all
  show "parseTimeToSeconds (JStr (pre @ (map dg mm @ colon # map dg ss) @ post))
         = Some (Finite (int (decval mm) * 60 + int (decval ss)))"
    using assms by (intro parse_ms) simp_all
  show "parseTimeToSeconds (JStr (js ''1:99'')) = Some (Finite 159)"
    by (simp add: eval_parse)
qed

text \<open>
  The theorem at \<open>" 1:02:03\t"\<close> and \<open>" 12:03\t"\<close>: 3723 and 723 seconds.
\<close>

theorem parseTimeToSeconds_durations_witness:
  "list_all is_ws (js '' '') \<and> list_all is_ws [0x09]
   \<and> parseTimeToSeconds (JStr (js '' 1:02:03'' @ [0x09])) = Some (Finite 3723)
   \<and> parseTimeToSeconds (JStr (js '' 12:03'' @ [0x09])) = Some (Finite 723)"
  using parseTimeToSeconds_durations
    [of "js '' ''" "[0x09]" "[1]" "[0, 2]" "[0, 3]" "[1, 2]"]
  by (simp add: js_def is_ws_def dg_def decval_def colon_def)

text \<open>
  The claim as written ends with \<open>"1:99"\<close> parsing to 99 seconds. The minute digit
  counts: the result is not 99.
\<close>

theorem parseTimeToSeconds_1_99_counterexample:
  "parseTimeToSeconds (JStr (js ''1:99'')) \<noteq> Some (Finite 99)"
  by (simp add: eval_parse)

section \<open>What the parser returns on anything else\<close>

lemma lit_Some: "lit c r = Some r' \<Longrightarrow> r = c # r'"
  by (cases r) (auto split: if_splits)

lemma digits_2_Some:
  "digits_2 r = Some (g, r') \<Longrightarrow> \<exists>a b. r = a # b # r' \<and> g = [a, b] \<and> is_digit a \<and> is_digit b"
  by (cases r rule: digits_2.cases) (auto split: if_splits)

lemma ms_tail_Some:
  "ms_tail r = Some s \<Longrightarrow> \<exists>a b. r = [colon, a, b] \<and> s = [a, b] \<and> is_digit a \<and> is_digit b"
  unfolding ms_tail_def
  by (auto split: option.splits if_splits dest!: lit_Some digits_2_Some)

lemma hms_tail_Some:
  "hms_tail r = Some (m, s) \<Longrightarrow>
   \<exists>a b c d. r = [colon, a, b, colon, c, d] \<and> m = [a, b] \<and> s = [c, d]
     \<and> is_digit a \<and> is_digit b \<and> is_digit c \<and> is_digit d"
  unfolding hms_tail_def
  by (auto split: option.splits dest!: lit_Some digits_2_Some ms_tail_Some)

lemma first_match_Some:
  "first_match tail cs = Some (g, t) \<Longrightarrow> \<exists>r. (g, r) \<in> set cs \<and> tail r = Some t"
  by (induction cs) (auto split: option.splits)

lemma digits_1_2_mem:
  "(g, r) \<in> set (digits_1_2 t) \<Longrightarrow>
   (\<exists>a. g = [a] \<and> t = a # r \<and> is_digit a)
   \<or> (\<exists>a b. g = [a, b] \<and> t = a # b # r \<and> is_digit a \<and> is_digit b)"
  by (cases t rule: digits_1_2.cases) (auto split: if_splits)

lemma digits_1_2_split:
  assumes "(g, r) \<in> set (digits_1_2 t)"
  shows "t = g @ r \<and> list_all is_digit g \<and> (length g = 1 \<or> length g = 2)"
  using digits_1_2_mem[OF assms] by auto

text \<open>The fields of a text that starts with digits up to a colon.\<close>

lemma fields_of_digits:
  "list_all is_digit ds \<Longrightarrow> fields_of (ds @ colon # r) = ds # fields_of r"
  by (induction ds) (auto simp: digit_not_colon)

lemma fields_hms:
  assumes "list_all is_digit hs" "is_digit a" "is_digit b" "is_digit c" "is_digit d"
  shows "fields_of (hs @ [colon, a, b, colon, c, d]) = [hs, [a, b], [c, d]]"
proof -
  have "fields_of [a, b, colon, c, d] = [[a, b], [c, d]]"
    using assms(2-) by (simp add: digit_not_colon)
  then show ?thesis using fields_of_digits[OF assms(1), of "[a, b, colon, c, d]"] by simp
qed

lemma fields_ms:
  assumes "list_all is_digit hs" "is_digit c" "is_digit d"
  shows "fields_of (hs @ [colon, c, d]) = [hs, [c, d]]"
proof -
  have "fields_of [c, d] = [[c, d]]"
    using assms(2-) by (simp add: digit_not_colon)
  then show ?thesis using fields_of_digits[OF assms(1), of "[c, d]"] by simp
qed

lemma grammar_hms:
  assumes "fields_of t = [h, [a, b], [c, d]]" "list_all is_digit h" "length h = 1 \<or> length h = 2"
    "is_digit a" "is_digit b" "is_digit c" "is_digit d"
  shows "duration_grammar t"
  using assms by (simp add: duration_grammar_def)

lemma grammar_ms:
  assumes "fields_of t = [h, [c, d]]" "list_all is_digit h" "length h = 1 \<or> length h = 2"
    "is_digit c" "is_digit d"
  shows "duration_grammar t"
  using assms by (simp add: duration_grammar_def)

text \<open>Whatever either alternative of the pattern accepts is in the grammar.\<close>

lemma hms_shape:
  assumes "first_match hms_tail (digits_1_2 t) = Some (h, mi, s)"
  shows "duration_grammar t"
proof -
  from first_match_Some[OF assms] obtain r where
    r: "(h, r) \<in> set (digits_1_2 t)" "hms_tail r = Some (mi, s)"
    by (elim exE conjE)
  from hms_tail_Some[OF r(2)] obtain a b c d where
    t: "r = [colon, a, b, colon, c, d]" "is_digit a" "is_digit b" "is_digit c" "is_digit d"
    by (elim exE conjE)
  note m = digits_1_2_split[OF r(1)]
  have g: "t = h @ r" "list_all is_digit h" "length h = 1 \<or> length h = 2"
    by (rule m[THEN conjunct1], rule m[THEN conjunct2, THEN conjunct1],
        rule m[THEN conjunct2, THEN conjunct2])
  have "fields_of (h @ [colon, a, b, colon, c, d]) = [h, [a, b], [c, d]]"
    using g(2) t(2-) by (rule fields_hms)
  then have "fields_of t = [h, [a, b], [c, d]]"
    by (simp only: g(1) t(1))
  then show ?thesis using g(2,3) t(2-) by (rule grammar_hms)
qed

lemma ms_shape:
  assumes "first_match ms_tail (digits_1_2 t) = Some (mi, s)"
  shows "duration_grammar t"
proof -
  from first_match_Some[OF assms] obtain r where
    r: "(mi, r) \<in> set (digits_1_2 t)" "ms_tail r = Some s"
    by (elim exE conjE)
  from ms_tail_Some[OF r(2)] obtain c d where
    t: "r = [colon, c, d]" "is_digit c" "is_digit d"
    by (elim exE conjE)
  note m = digits_1_2_split[OF r(1)]
  have g: "t = mi @ r" "list_all is_digit mi" "length mi = 1 \<or> length mi = 2"
    by (rule m[THEN conjunct1], rule m[THEN conjunct2, THEN conjunct1],
        rule m[THEN conjunct2, THEN conjunct2])
  have "fields_of (mi @ [colon, c, d]) = [mi, [c, d]]"
    using g(2) t(2-) by (rule fields_ms)
  then have "fields_of t = [mi, [c, d]]"
    by (simp only: g(1) t(1))
  then show ?thesis using g(2,3) t(2-) by (rule grammar_ms)
qed

lemma second_alternative:
  "first_match hms_tail (digits_1_2 t) = None \<Longrightarrow> timePattern t = Some m \<Longrightarrow>
   \<exists>mi s. first_match ms_tail (digits_1_2 t) = Some (mi, s)"
  by (simp add: timePattern_def split: option.splits prod.splits)

lemma timePattern_grammar: "timePattern t = Some m \<Longrightarrow> duration_grammar t"
proof (cases "first_match hms_tail (digits_1_2 t)")
  case (Some x)
  then show ?thesis by (cases x) (simp add: hms_shape)
next
  case None
  assume "timePattern t = Some m"
  from second_alternative[OF None this] show ?thesis by (elim exE) (rule ms_shape)
qed

lemmas eval_grammar = duration_grammar_def js_def trim_def is_ws_def colon_def is_digit_def

text \<open>
  Claim C5. For every input that is not a string, and for every string that after
  trimming is not in the duration grammar (the empty string, wrong separators and wrong
  digit counts among them), \<open>parseTimeToSeconds\<close> returns \<open>null\<close>. It never throws:
  the function is total and its body has no statement that can throw.
\<close>

theorem parseTimeToSeconds_no_value:
  assumes "\<forall>s. v = JStr s \<longrightarrow> \<not> duration_grammar (trim s)"
  shows "parseTimeToSeconds v = None"
proof (cases v)
  case (JStr s)
  with assms have "\<not> duration_grammar (trim s)" by simp
  then have "timePattern (trim s) = None"
    using timePattern_grammar by (cases "timePattern (trim s)") auto
  then show ?thesis by (simp add: parseTimeToSeconds_def JStr)
qed (simp_all add: parseTimeToSeconds_def)

text \<open>
  The theorem at \<open>"1:5"\<close> (one second digit), \<open>"1-05"\<close> (wrong separator), the
  empty string and the number 5.
\<close>

theorem parseTimeToSeconds_no_value_witness:
  "\<not> duration_grammar (trim (js ''1:5''))
   \<and> parseTimeToSeconds (JStr (js ''1:5'')) = None
   \<and> \<not> duration_grammar (trim (js ''1-05''))
   \<and> parseTimeToSeconds (JStr (js ''1-05'')) = None
   \<and> parseTimeToSeconds (JStr []) = None
   \<and> parseTimeToSeconds (JNum 5) = None"
  using parseTimeToSeconds_no_value[of "JStr (js ''1:5'')"]
    parseTimeToSeconds_no_value[of "JStr (js ''1-05'')"]
    parseTimeToSeconds_no_value[of "JStr []"]
    parseTimeToSeconds_no_value[of "JNum 5"]
  by (simp add: eval_grammar)

section \<open>The monitoring engine: one entry\<close>

lemma speakValue_frame [simp]:
  "monitoredFields (speakValue k s c st) = monitoredFields st"
  "previousValues (speakValue k s c st) = previousValues st"
  "localData (speakValue k s c st) = localData st"
  "speak_calls (speakValue k s c st) = speak_calls st @ [(k, s, c)]"
  by (simp_all add: speakValue_def Let_def cancel_def)

lemma cache_get_speakValue [simp]: "cache_get (speakValue k s c st) u = cache_get st u"
  by (simp add: cache_get_def)

text \<open>What one entry does to the cache, the configuration and the record of calls.\<close>

lemma check_entry_frame [simp]:
  "monitoredFields (check_entry eid e st) = monitoredFields st"
  "localData (check_entry eid e st) = localData st"
  by (cases e; simp add: Let_def split: option.splits)+

lemma check_entry_calls:
  "\<exists>new. speak_calls (check_entry eid e st) = speak_calls st @ new
     \<and> length new \<le> 1 \<and> (\<forall>c \<in> set new. fst c = fst e)"
  by (cases e) (simp add: Let_def split: option.splits)

lemma uniqueKey_inj [simp]: "uniqueKey eid k = uniqueKey eid k' \<longleftrightarrow> k = k'"
  by (simp add: uniqueKey_def)

lemma check_entry_cache_other:
  "fst e \<noteq> k \<Longrightarrow> cache_get (check_entry eid e st) (uniqueKey eid k) = cache_get st (uniqueKey eid k)"
  by (cases e) (simp add: Let_def cache_get_def split: option.splits)

section \<open>The monitoring engine: a pass over the entries of an event\<close>

lemma fold_check_frame [simp]:
  "monitoredFields (fold (check_entry eid) es st) = monitoredFields st"
  "localData (fold (check_entry eid) es st) = localData st"
  by (induction es arbitrary: st) simp_all

text \<open>Entries of other fields leave a field's cache entry alone and make no call for it.\<close>

lemma fold_check_other:
  assumes "k \<notin> fst ` set es"
  shows "cache_get (fold (check_entry eid) es st) (uniqueKey eid k) = cache_get st (uniqueKey eid k)
       \<and> (\<exists>new. speak_calls (fold (check_entry eid) es st) = speak_calls st @ new
              \<and> (\<forall>c \<in> set new. fst c \<noteq> k))"
  using assms
proof (induction es arbitrary: st)
  case Nil
  then show ?case by simp
next
  case (Cons e es)
  from Cons.prems have ne: "fst e \<noteq> k" and rest: "k \<notin> fst ` set es" by auto
  obtain n1 where n1: "speak_calls (check_entry eid e st) = speak_calls st @ n1"
    "\<forall>c \<in> set n1. fst c = fst e"
    using check_entry_calls[of eid e st] by blast
  from Cons.IH[OF rest, of "check_entry eid e st"] obtain n2 where
    c: "cache_get (fold (check_entry eid) es (check_entry eid e st)) (uniqueKey eid k)
        = cache_get (check_entry eid e st) (uniqueKey eid k)"
    and n2: "speak_calls (fold (check_entry eid) es (check_entry eid e st))
        = speak_calls (check_entry eid e st) @ n2" "\<forall>c \<in> set n2. fst c \<noteq> k"
    by blast
  have "speak_calls (fold (check_entry eid) (e # es) st) = speak_calls st @ (n1 @ n2)"
    by (simp add: n1 n2)
  moreover have "\<forall>c \<in> set (n1 @ n2). fst c \<noteq> k"
    using n1(2) n2(2) ne by auto
  moreover have "cache_get (fold (check_entry eid) (e # es) st) (uniqueKey eid k)
        = cache_get st (uniqueKey eid k)"
    using c check_entry_cache_other[OF ne, of eid st] by simp
  ultimately show ?case by blast
qed

lemma parse_Some_string: "parseTimeToSeconds v = Some x \<Longrightarrow> truthy v \<and> is_string v"
  by (cases v) (auto simp: parseTimeToSeconds_def split: if_splits)

text \<open>The decision on one entry whose value is new and parses.\<close>

lemma check_entry_decision:
  assumes "map_of (monitoredFields st) k = Some cfg" "enabled cfg"
    and "cache_get st (uniqueKey eid k) \<noteq> v"
    and "parseTimeToSeconds v = Some (Finite s)"
  shows "speak_calls (check_entry eid (k, v) st)
         = speak_calls st @ (if s \<le> threshold cfg then [(k, Finite s, cfg)] else [])"
  using assms parse_Some_string[OF assms(4)] by (auto simp: Let_def)

lemma handedI: "speak_calls st' = speak_calls st @ new \<Longrightarrow> handed st st' = new"
  by (simp add: handed_def)

lemma threshold_fold:
  assumes d: "distinct (map fst cv)" and m: "(k, v) \<in> set cv"
    and cfg: "map_of (monitoredFields st) k = Some cfg" "enabled cfg"
    and new: "cache_get st (uniqueKey eid k) \<noteq> v"
    and p: "parseTimeToSeconds v = Some (Finite s)"
  shows "filter (\<lambda>c. fst c = k) (handed st (fold (check_entry eid) cv st))
         = (if s \<le> threshold cfg then [(k, Finite s, cfg)] else [])"
proof -
  from split_list[OF m] obtain xs ys where cv: "cv = xs @ (k, v) # ys" by blast
  from d have kx: "k \<notin> fst ` set xs" and ky: "k \<notin> fst ` set ys"
    unfolding cv by auto
  let ?f = "check_entry eid"
  let ?st1 = "fold ?f xs st"
  let ?st2 = "?f (k, v) ?st1"
  let ?st3 = "fold ?f ys ?st2"
  let ?mid = "if s \<le> threshold cfg then [(k, Finite s, cfg)] else []"
  from fold_check_other[OF kx, of eid st] obtain n1 where
    c1: "cache_get ?st1 (uniqueKey eid k) = cache_get st (uniqueKey eid k)"
    and n1: "speak_calls ?st1 = speak_calls st @ n1" "\<forall>c \<in> set n1. fst c \<noteq> k"
    by blast
  have n2: "speak_calls ?st2 = speak_calls ?st1 @ ?mid"
    by (rule check_entry_decision) (simp_all add: cfg c1 new p)
  from fold_check_other[OF ky, of eid ?st2] obtain n3 where
    n3: "speak_calls ?st3 = speak_calls ?st2 @ n3" "\<forall>c \<in> set n3. fst c \<noteq> k"
    by blast
  have "speak_calls (fold ?f cv st) = speak_calls st @ (n1 @ ?mid @ n3)"
    unfolding cv by (simp add: n1(1) n2 n3(1) del: check_entry.simps)
  then have "handed st (fold ?f cv st) = n1 @ ?mid @ n3"
    by (rule handedI)
  moreover have "filter (\<lambda>c. fst c = k) n1 = []" "filter (\<lambda>c. fst c = k) n3 = []"
    using n1(2) n3(2) by (auto simp: filter_empty_conv)
  ultimately show ?thesis by simp
qed

text \<open>
  Claim C2. Take an enabled monitored field whose value in the event's \<open>custom\<close>
  object is new (it differs from the cached one) and parses to \<open>s\<close> seconds. The
  pass over the object calls \<open>speakValue\<close> for that field if and only if
  \<open>s\<close> is at most the configured threshold, and then exactly once, with \<open>s\<close> and
  the field's configuration: a value equal to the threshold speaks, a value one second
  above it does not.
\<close>

theorem threshold_is_inclusive:
  assumes "distinct (map fst customValues)"
    and "(fieldKey, fieldValue) \<in> set customValues"
    and "map_of (monitoredFields st) fieldKey = Some config" and "enabled config"
    and "cache_get st (uniqueKey (current_eventId st eventType) fieldKey) \<noteq> fieldValue"
    and "parseTimeToSeconds fieldValue = Some (Finite s)"
  shows "filter (\<lambda>c. fst c = fieldKey) (handed st (checkEventFields customValues eventType st))
         = (if s \<le> threshold config then [(fieldKey, Finite s, config)] else [])
       \<and> ((fieldKey, Finite s, config) \<in> set (handed st (checkEventFields customValues eventType st))
            \<longleftrightarrow> s \<le> threshold config)"
proof -
  let ?h = "handed st (checkEventFields customValues eventType st)"
  have f: "filter (\<lambda>c. fst c = fieldKey) ?h
         = (if s \<le> threshold config then [(fieldKey, Finite s, config)] else [])"
    unfolding checkEventFields_def using assms by (rule threshold_fold)
  have "(fieldKey, Finite s, config) \<in> set ?h
        \<longleftrightarrow> (fieldKey, Finite s, config) \<in> set (filter (\<lambda>c. fst c = fieldKey) ?h)"
    by simp
  also have "\<dots> \<longleftrightarrow> s \<le> threshold config"
    unfolding f by simp
  finally show ?thesis using f by simp
qed

lemmas eval_engine =
  checkEventFields_def current_eventId_def handed_def cache_get_def uniqueKey_def
  speakValue_def page_load_def desktop_def Let_def

text \<open>
  The theorem on the example page: \<open>"00:10"\<close> against the threshold 10 is handed to
  the dispatcher, \<open>"00:11"\<close> is not.
\<close>

theorem threshold_is_inclusive_witness:
  "filter (\<lambda>c. fst c = js ''timer'')
     (handed timer_page (checkEventFields [(js ''timer'', JStr (js ''00:10''))] Current timer_page))
     = [(js ''timer'', Finite 10, timer_config)]
   \<and> filter (\<lambda>c. fst c = js ''timer'')
     (handed timer_page (checkEventFields [(js ''timer'', JStr (js ''00:11''))] Current timer_page))
     = []"
proof -
  have a: "parseTimeToSeconds (JStr (js ''00:10'')) = Some (Finite 10)"
    by (simp add: eval_parse)
  have b: "parseTimeToSeconds (JStr (js ''00:11'')) = Some (Finite 11)"
    by (simp add: eval_parse)
  have c: "map_of (monitoredFields timer_page) (js ''timer'') = Some timer_config"
    "enabled timer_config" "threshold timer_config = 10"
    by (simp_all add: timer_page_def timer_config_def)
  have d: "cache_get timer_page (uniqueKey (current_eventId timer_page Current) (js ''timer''))
           = JUndefined"
    by (simp add: timer_page_def cache_get_def page_load_def desktop_def)
  show ?thesis
    using threshold_is_inclusive[of "[(js ''timer'', JStr (js ''00:10''))]" "js ''timer''"
        "JStr (js ''00:10'')" timer_page timer_config Current 10, OF _ _ c(1,2) _ a]
      threshold_is_inclusive[of "[(js ''timer'', JStr (js ''00:11''))]" "js ''timer''"
        "JStr (js ''00:11'')" timer_page timer_config Current 11, OF _ _ c(1,2) _ b]
    by (simp add: d c(3))
qed

section \<open>The same value delivered twice\<close>

declare check_entry.simps [simp del]

lemma check_entry_sets_cache:
  assumes "map_of (monitoredFields st) k = Some cfg" "enabled cfg"
  shows "cache_get (check_entry eid (k, v) st) (uniqueKey eid k) = v"
  using assms
  by (auto simp: check_entry.simps Let_def cache_get_def speakValue_frame split: option.splits)

lemma check_entry_noop:
  assumes "\<And>cfg. map_of (monitoredFields st) k = Some cfg \<Longrightarrow> enabled cfg
             \<Longrightarrow> cache_get st (uniqueKey eid k) = v"
  shows "check_entry eid (k, v) st = st"
  using assms by (auto simp: check_entry.simps split: option.splits)

lemma fold_fixed: "(\<And>e. e \<in> set es \<Longrightarrow> f e st = st) \<Longrightarrow> fold f es st = st"
  by (induction es) simp_all

text \<open>After a pass, the cache holds the value of every entry of an enabled field.\<close>

lemma fold_sets_cache:
  assumes d: "distinct (map fst cv)" and m: "(k, v) \<in> set cv"
    and cfg: "map_of (monitoredFields st) k = Some cfg" "enabled cfg"
  shows "cache_get (fold (check_entry eid) cv st) (uniqueKey eid k) = v"
proof -
  from split_list[OF m] obtain xs ys where cv: "cv = xs @ (k, v) # ys" by blast
  from d have ky: "k \<notin> fst ` set ys" unfolding cv by auto
  let ?st1 = "fold (check_entry eid) xs st"
  have "cache_get (check_entry eid (k, v) ?st1) (uniqueKey eid k) = v"
    by (rule check_entry_sets_cache[of _ _ cfg]) (simp_all add: cfg)
  then show ?thesis
    unfolding cv using fold_check_other[OF ky, of eid "check_entry eid (k, v) ?st1"] by simp
qed

lemma second_pass_noop:
  assumes d: "distinct (map fst cv)"
  shows "fold (check_entry eid) cv (fold (check_entry eid) cv st) = fold (check_entry eid) cv st"
proof (rule fold_fixed)
  fix e assume e: "e \<in> set cv"
  obtain k v where kv: "e = (k, v)" by (cases e)
  show "check_entry eid e (fold (check_entry eid) cv st) = fold (check_entry eid) cv st"
    unfolding kv
  proof (rule check_entry_noop)
    fix cfg
    assume "map_of (monitoredFields (fold (check_entry eid) cv st)) k = Some cfg" "enabled cfg"
    then show "cache_get (fold (check_entry eid) cv st) (uniqueKey eid k) = v"
      using fold_sets_cache[OF d, of k v st cfg eid] e kv by simp
  qed
qed


lemma current_eventId_check [simp]:
  "current_eventId (checkEventFields cv et st) et' = current_eventId st et'"
  by (simp add: current_eventId_def checkEventFields_def)


text \<open>
  A pass over an object in which a field's value is the cached one makes no call for
  that field and leaves its cache entry as it is, whatever the other entries are.
\<close>

lemma fold_cache_hit:
  assumes d: "distinct (map fst cv)" and m: "(k, v) \<in> set cv"
    and hit: "cache_get st (uniqueKey eid k) = v"
  shows "filter (\<lambda>c. fst c = k) (handed st (fold (check_entry eid) cv st)) = []"
proof -
  from split_list[OF m] obtain xs ys where cv: "cv = xs @ (k, v) # ys" by blast
  from d have kx: "k \<notin> fst ` set xs" and ky: "k \<notin> fst ` set ys"
    unfolding cv by auto
  let ?f = "check_entry eid"
  let ?st1 = "fold ?f xs st"
  from fold_check_other[OF kx, of eid st] obtain n1 where
    c1: "cache_get ?st1 (uniqueKey eid k) = cache_get st (uniqueKey eid k)"
    and n1: "speak_calls ?st1 = speak_calls st @ n1" "\<forall>c \<in> set n1. fst c \<noteq> k"
    by blast
  have n2: "?f (k, v) ?st1 = ?st1"
    by (rule check_entry_noop) (simp add: c1 hit)
  from fold_check_other[OF ky, of eid ?st1] obtain n3 where
    n3: "speak_calls (fold ?f ys ?st1) = speak_calls ?st1 @ n3" "\<forall>c \<in> set n3. fst c \<noteq> k"
    by blast
  have "speak_calls (fold ?f cv st) = speak_calls st @ (n1 @ n3)"
    unfolding cv by (simp add: n1(1) n2 n3(1))
  then have "handed st (fold ?f cv st) = n1 @ n3"
    by (rule handedI)
  then show ?thesis
    using n1(2) n3(2) by (auto simp: filter_empty_conv)
qed









text \<open>
  The hypothesis on the cache entry matters when two fields share a composite key. On
  \<open>shared_key_page\<close> the current event \<open>a\<close> delivers \<open>b-c\<close> and the next
  event \<open>a-b\<close> delivers \<open>c\<close>, both under \<open>a-b-c\<close>: each delivery
  overwrites the entry that the other has left, so under that key no value comes twice
  in a row, and the same payload received twice is spoken twice.
\<close>

lemma shared_key_example:
  "uniqueKey (js ''a'') (js ''b-c'') = uniqueKey (js ''a-b'') (js ''c'')
   \<and> speak_calls (handleOntimePayload shared_key_payload shared_key_page)
      = [(js ''b-c'', Finite 5, timer_config), (js ''c'', Finite 7, timer_config)]
   \<and> previousValues (handleOntimePayload shared_key_payload shared_key_page)
      = [js ''a-b-c'' \<mapsto> JStr (js ''00:07'')]
   \<and> speak_calls (handleOntimePayload shared_key_payload
        (handleOntimePayload shared_key_payload shared_key_page))
      = [(js ''b-c'', Finite 5, timer_config), (js ''c'', Finite 7, timer_config),
         (js ''b-c'', Finite 5, timer_config), (js ''c'', Finite 7, timer_config)]"
  by (simp add: handleOntimePayload_def checkMonitoredFields_def shared_key_payload_def
      shared_key_page_def eval_engine check_entry.simps timer_config_def eval_parse)

section \<open>Frames of the socket\<close>

lemma checkEventFields_localData [simp]:
  "localData (checkEventFields cv et st) = localData st"
  by (simp add: checkEventFields_def)

lemma checkMonitoredFields_localData [simp]:
  "localData (checkMonitoredFields st) = localData st"
  by (simp add: checkMonitoredFields_def Let_def split: option.splits)

lemma handleOntimePayload_localData:
  "localData (handleOntimePayload payload st) = localData st ++ payload"
  by (simp add: handleOntimePayload_def Let_def)

text \<open>
  Claim C8. Of the frames of the socket only an envelope tagged \<open>runtime-data\<close> is
  acted upon: a frame with any other tag leaves the whole state as it was (a text that
  is not JSON makes the handler throw before it has changed anything). The payload of
  a \<open>runtime-data\<close> frame is merged into \<open>localData\<close> key by key: a key of
  the payload takes the payload's value, every other key keeps the value it had, and no
  key is ever removed.
\<close>

theorem runtime_data_merge:
  "onmessage Rejected st = Inl SyntaxError
   \<and> (tag \<noteq> JStr (js ''runtime-data'') \<longrightarrow> onmessage (Envelope tag payload) st = Inr st)
   \<and> (\<exists>st'. onmessage (Envelope (JStr (js ''runtime-data'')) payload) st = Inr st'
         \<and> (\<forall>k. localData st' k = (case payload k of Some v \<Rightarrow> Some v | None \<Rightarrow> localData st k))
         \<and> dom (localData st) \<subseteq> dom (localData st'))"
  by (auto simp: handleOntimePayload_localData map_add_def split: option.splits)

text \<open>
  The theorem on a page that holds \<open>clock\<close>: a \<open>ping\<close> frame changes nothing,
  a \<open>runtime-data\<close> frame with \<open>eventNow\<close> adds that key and keeps \<open>clock\<close>.
\<close>

theorem runtime_data_merge_witness:
  "onmessage (Envelope (JStr (js ''ping'')) [js ''eventNow'' \<mapsto> timer_event]) clock_page
     = Inr clock_page
   \<and> (\<exists>st'. onmessage (Envelope (JStr (js ''runtime-data'')) [js ''eventNow'' \<mapsto> timer_event])
                clock_page = Inr st'
         \<and> localData st' (js ''eventNow'') = Some timer_event
         \<and> localData st' (js ''clock'') = Some (RPrim (JNum 7)))"
proof -
  have ne: "JStr (js ''ping'') \<noteq> JStr (js ''runtime-data'')"
    by (simp add: js_def)
  have k: "js ''clock'' \<noteq> js ''eventNow''"
    by (simp add: js_def)
  from runtime_data_merge[of clock_page "JStr (js ''ping'')" "[js ''eventNow'' \<mapsto> timer_event]"]
  obtain st' where
    a: "onmessage (Envelope (JStr (js ''ping'')) [js ''eventNow'' \<mapsto> timer_event]) clock_page
        = Inr clock_page"
    and b: "onmessage (Envelope (JStr (js ''runtime-data'')) [js ''eventNow'' \<mapsto> timer_event])
              clock_page = Inr st'"
    and c: "\<forall>k. localData st' k
              = (case [js ''eventNow'' \<mapsto> timer_event] k of Some v \<Rightarrow> Some v
                 | None \<Rightarrow> localData clock_page k)"
    using ne by blast
  have "localData st' (js ''eventNow'') = Some timer_event"
    using c by simp
  moreover have "localData st' (js ''clock'') = Some (RPrim (JNum 7))"
    using c k by (simp add: clock_page_def)
  ultimately show ?thesis using a b by blast
qed


section \<open>Removing a field and adding it again\<close>

lemma ui_frames [simp]:
  "previousValues (populateAddFieldDropdown st) = previousValues st"
  "localData (populateAddFieldDropdown st) = localData st"
  "monitoredFields (populateAddFieldDropdown st) = monitoredFields st"
  "speak_calls (populateAddFieldDropdown st) = speak_calls st"
  "previousValues (saveConfiguration st) = previousValues st"
  "localData (saveConfiguration st) = localData st"
  "monitoredFields (saveConfiguration st) = monitoredFields st"
  "speak_calls (saveConfiguration st) = speak_calls st"
  by (simp_all add: populateAddFieldDropdown_def saveConfiguration_def Let_def)

lemma render_frames [simp]:
  "previousValues (renderFieldsConfiguration st) = previousValues st"
  "localData (renderFieldsConfiguration st) = localData st"
  "monitoredFields (renderFieldsConfiguration st) = monitoredFields st"
  "speak_calls (renderFieldsConfiguration st) = speak_calls st"
  by (simp_all add: renderFieldsConfiguration_def Let_def)

lemma ui_catalog [simp]:
  "customFields (populateAddFieldDropdown st) = customFields st"
  "customFields (saveConfiguration st) = customFields st"
  "customFields (renderFieldsConfiguration st) = customFields st"
  by (simp_all add: populateAddFieldDropdown_def saveConfiguration_def
      renderFieldsConfiguration_def Let_def)

lemma uniqueKey_not_bare: "uniqueKey eventId fieldKey \<noteq> fieldKey"
proof
  assume "uniqueKey eventId fieldKey = fieldKey"
  then have "length (uniqueKey eventId fieldKey) = length fieldKey" by simp
  then show False by (simp add: uniqueKey_def js_def)
qed

lemma remove_frames:
  "map_of (monitoredFields (on_remove_click k st)) k = None"
  "previousValues (on_remove_click k st) = (previousValues st)(k := None)"
  "localData (on_remove_click k st) = localData st"
  "customFields (on_remove_click k st) = customFields st"
  by (simp_all add: on_remove_click_def delete_conv')

lemma add_frames:
  "previousValues (on_add_click k st) = previousValues st"
  "localData (on_add_click k st) = localData st"
  by (simp_all add: on_add_click_def)

text \<open>
  What holds of the removed field itself. Removing a field from monitoring deletes its
  configuration and leaves every cache entry of that field in place: the cache is keyed
  by \<open>"<eventId>-<fieldKey>"\<close>, removal deletes the bare field key, and the bare key
  differs from every composite key of the same field. When the field is added again it
  is monitored and enabled, and a value that is still the cached one is not spoken
  again.
\<close>

lemma removed_field_cache_kept:
  assumes "distinct (map fst customValues)" and "(fieldKey, fieldValue) \<in> set customValues"
    and "cache_get st (uniqueKey (current_eventId st eventType) fieldKey) = fieldValue"
    and "st' = on_add_click fieldKey (on_remove_click fieldKey st)"
  shows "map_of (monitoredFields (on_remove_click fieldKey st)) fieldKey = None
       \<and> (\<forall>eventId. uniqueKey eventId fieldKey \<noteq> fieldKey
             \<and> previousValues (on_remove_click fieldKey st) (uniqueKey eventId fieldKey)
               = previousValues st (uniqueKey eventId fieldKey))
       \<and> (fieldKey \<noteq> [] \<and> has_field (customFields st) fieldKey \<longrightarrow>
            map_of (monitoredFields st') fieldKey
            = Some \<lparr>enabled = True, threshold = 10, voice = [], language = js ''en-US''\<rparr>)
       \<and> filter (\<lambda>c. fst c = fieldKey)
            (handed st' (checkEventFields customValues eventType st')) = []"
proof -
  have id: "current_eventId st' eventType = current_eventId st eventType"
    by (simp add: current_eventId_def assms(4) add_frames remove_frames)
  have "cache_get st' (uniqueKey (current_eventId st eventType) fieldKey) = fieldValue"
    using assms(3) uniqueKey_not_bare[of "current_eventId st eventType" fieldKey]
    by (simp add: cache_get_def assms(4) add_frames remove_frames)
  then have "filter (\<lambda>c. fst c = fieldKey)
            (handed st' (checkEventFields customValues eventType st')) = []"
    unfolding checkEventFields_def id by (rule fold_cache_hit[OF assms(1,2)])
  moreover have "fieldKey \<noteq> [] \<and> has_field (customFields st) fieldKey \<longrightarrow>
            map_of (monitoredFields st') fieldKey
            = Some \<lparr>enabled = True, threshold = 10, voice = [], language = js ''en-US''\<rparr>"
    by (simp add: assms(4) on_add_click_def remove_frames update_conv')
  ultimately show ?thesis
    using uniqueKey_not_bare by (simp add: remove_frames)
qed

text \<open>
  On the page that monitors \<open>timer\<close> and \<open>note\<close>, after \<open>"00:05"\<close> has been
  seen once for the event without id: the entry \<open>current-timer\<close> survives the
  removal of \<open>timer\<close>, the dropdown offers \<open>timer\<close> again, and after the field
  has been added the same value is not spoken.
\<close>

lemma removed_field_example:
  "previousValues (checkEventFields [(js ''timer'', JStr (js ''00:05''))] Current two_field_page)
     = [js ''current-timer'' \<mapsto> JStr (js ''00:05'')]
   \<and> map_of (monitoredFields (on_remove_click (js ''timer'')
         (checkEventFields [(js ''timer'', JStr (js ''00:05''))] Current two_field_page)))
       (js ''timer'') = None
   \<and> previousValues (on_remove_click (js ''timer'')
         (checkEventFields [(js ''timer'', JStr (js ''00:05''))] Current two_field_page))
     = [js ''current-timer'' \<mapsto> JStr (js ''00:05'')]
   \<and> add_field_dropdown (on_remove_click (js ''timer'')
         (checkEventFields [(js ''timer'', JStr (js ''00:05''))] Current two_field_page))
     = Options [([], js ''Select a field to add...''), (js ''timer'', js ''Timer'')] False
   \<and> map_of (monitoredFields (on_add_click (js ''timer'') (on_remove_click (js ''timer'')
         (checkEventFields [(js ''timer'', JStr (js ''00:05''))] Current two_field_page))))
       (js ''timer'') = Some timer_config
   \<and> handed
       (on_add_click (js ''timer'') (on_remove_click (js ''timer'')
         (checkEventFields [(js ''timer'', JStr (js ''00:05''))] Current two_field_page)))
       (checkEventFields [(js ''timer'', JStr (js ''00:05''))] Current
         (on_add_click (js ''timer'') (on_remove_click (js ''timer'')
           (checkEventFields [(js ''timer'', JStr (js ''00:05''))] Current two_field_page))))
     = []"
proof -
  let ?st = "checkEventFields [(js ''timer'', JStr (js ''00:05''))] Current two_field_page"
  let ?r = "on_remove_click (js ''timer'') ?st"
  let ?a = "on_add_click (js ''timer'') ?r"
  have s: "previousValues ?st = [js ''current-timer'' \<mapsto> JStr (js ''00:05'')]"
    "monitoredFields ?st = [(js ''timer'', timer_config), (js ''note'', timer_config)]"
    "customFields ?st = [(js ''timer'', timer_field), (js ''note'', timer_field)]"
    "localData ?st = Map.empty"
    by (simp_all add: eval_engine check_entry.simps two_field_page_def timer_config_def eval_parse)
  have r: "previousValues ?r = [js ''current-timer'' \<mapsto> JStr (js ''00:05'')]"
    "map_of (monitoredFields ?r) (js ''timer'') = None"
    by (simp_all add: remove_frames s) (simp add: js_def fun_eq_iff)
  have d: "add_field_dropdown ?r
     = Options [([], js ''Select a field to add...''), (js ''timer'', js ''Timer'')] False"
    by (simp add: on_remove_click_def renderFieldsConfiguration_def populateAddFieldDropdown_def
        saveConfiguration_def Let_def s)
       (simp add: is_text_field_def timer_field_def js_def)
  have m: "map_of (monitoredFields ?a) (js ''timer'') = Some timer_config"
    by (simp add: on_add_click_def remove_frames s has_field_def update_conv' timer_config_def)
       (simp add: js_def)
  have c: "cache_get ?a (uniqueKey (current_eventId ?a Current) (js ''timer'')) = JStr (js ''00:05'')"
    by (simp add: cache_get_def add_frames r current_eventId_def remove_frames s uniqueKey_def)
       (simp add: two_field_page_def page_load_def desktop_def js_def)
  have "check_entry (current_eventId ?a Current) (js ''timer'', JStr (js ''00:05'')) ?a = ?a"
    by (rule check_entry_noop) (simp add: c)
  then have h: "handed ?a (checkEventFields [(js ''timer'', JStr (js ''00:05''))] Current ?a) = []"
    by (simp add: checkEventFields_def handed_def)
  show ?thesis
    using s(1) r d m h by simp
qed

lemma hyphen_checked:
  "previousValues (checkEventFields [(js ''b'', JStr (js ''00:05''))] Current hyphen_page)
    = [js ''a-b'' \<mapsto> JStr (js ''00:05'')]"
  by (simp add: eval_engine check_entry.simps hyphen_page_def timer_config_def eval_parse)

lemma checkEventFields_single:
  "checkEventFields [e] et st = check_entry (current_eventId st et) e st"
  by (simp add: checkEventFields_def)

text \<open>
  Claim C10 against the code. The claim has the bare field key never be a cache key, so
  that removing a field touches no cache entry. On a page that monitors the fields
  \<open>b\<close> and \<open>a-b\<close> while the current event has the id \<open>a\<close>, the value
  \<open>"00:05"\<close> of \<open>b\<close> is cached under the composite key \<open>a-b\<close>. The click on
  Remove in the row of the field \<open>a-b\<close> deletes that entry, which is the entry of
  \<open>b\<close>; the field \<open>b\<close> is still monitored, and when the same value of \<open>b\<close>
  is delivered again it is handed to \<open>speakValue\<close> although it has not changed.
\<close>

theorem removal_drops_entry_of_other_field:
  "uniqueKey (js ''a'') (js ''b'') = js ''a-b''
   \<and> previousValues (checkEventFields [(js ''b'', JStr (js ''00:05''))] Current hyphen_page)
     (js ''a-b'') = Some (JStr (js ''00:05''))
   \<and> previousValues (on_remove_click (js ''a-b'')
         (checkEventFields [(js ''b'', JStr (js ''00:05''))] Current hyphen_page))
       (js ''a-b'') = None
   \<and> map_of (monitoredFields (on_remove_click (js ''a-b'')
         (checkEventFields [(js ''b'', JStr (js ''00:05''))] Current hyphen_page)))
       (js ''b'') = Some timer_config
   \<and> handed
        (on_remove_click (js ''a-b'')
          (checkEventFields [(js ''b'', JStr (js ''00:05''))] Current hyphen_page))
        (checkEventFields [(js ''b'', JStr (js ''00:05''))] Current
          (on_remove_click (js ''a-b'')
            (checkEventFields [(js ''b'', JStr (js ''00:05''))] Current hyphen_page)))
      = [(js ''b'', Finite 5, timer_config)]"
proof -
  let ?st = "checkEventFields [(js ''b'', JStr (js ''00:05''))] Current hyphen_page"
  let ?r = "on_remove_click (js ''a-b'') ?st"
  have u: "uniqueKey (js ''a'') (js ''b'') = js ''a-b''"
    by (simp add: uniqueKey_def js_def)
  have m: "map_of (monitoredFields ?r) (js ''b'') = Some timer_config"
    by (simp add: on_remove_click_def hyphen_page_def page_load_def desktop_def checkEventFields_def js_def)
  have e: "current_eventId ?r Current = js ''a''"
    by (simp add: current_eventId_def remove_frames hyphen_page_def page_load_def desktop_def js_def)
  have c: "cache_get ?r (uniqueKey (js ''a'') (js ''b'')) = JUndefined"
    by (simp add: cache_get_def remove_frames hyphen_checked uniqueKey_def js_def)
  have "speak_calls (check_entry (js ''a'') (js ''b'', JStr (js ''00:05'')) ?r)
        = speak_calls ?r @ [(js ''b'', Finite 5, timer_config)]"
    using check_entry_decision[of ?r "js ''b''" timer_config "js ''a''" "JStr (js ''00:05'')" 5]
      m c by (simp add: eval_parse timer_config_def)
  then have "handed ?r (checkEventFields [(js ''b'', JStr (js ''00:05''))] Current ?r)
      = [(js ''b'', Finite 5, timer_config)]"
    unfolding checkEventFields_single[of _ Current ?r] e by (simp add: handed_def)
  then show ?thesis using u m by (simp add: hyphen_checked remove_frames)
qed

section \<open>The stored configuration\<close>

lemma map_of_obj_assign:
  "map_of (obj_assign obj k v) = (if k = js ''__proto__'' then map_of obj else (map_of obj)(k \<mapsto> v))"
  by (simp add: obj_assign_def update_conv')

lemma distinct_obj_assign: "distinct (map fst obj) \<Longrightarrow> distinct (map fst (obj_assign obj k v))"
  by (simp add: obj_assign_def distinct_update)

lemma map_of_None_iff: "map_of xs k = None \<longleftrightarrow> k \<notin> fst ` set xs"
  by (simp add: map_of_eq_None_iff)

text \<open>Copying a map into an object keeps every entry but that of \<open>__proto__\<close>.\<close>

lemma fold_assign:
  assumes "distinct (map fst m)"
  shows "map_of (fold (\<lambda>(key, v) config. obj_assign config key v) m acc) k
         = (if k \<noteq> js ''__proto__'' \<and> k \<in> fst ` set m then map_of m k else map_of acc k)"
  using assms
proof (induction m arbitrary: acc)
  case Nil
  then show ?case by simp
next
  case (Cons e m)
  obtain k' v' where e: "e = (k', v')" by (cases e)
  from Cons.prems have d: "distinct (map fst m)" and n: "k' \<notin> fst ` set m"
    by (auto simp: e)
  have "map_of (fold (\<lambda>(key, v) config. obj_assign config key v) (e # m) acc) k
      = (if k \<noteq> js ''__proto__'' \<and> k \<in> fst ` set m then map_of m k
         else map_of (obj_assign acc k' v') k)"
    using Cons.IH[OF d, of "obj_assign acc k' v'"] by (simp add: e)
  also have "\<dots> = (if k \<noteq> js ''__proto__'' \<and> k \<in> fst ` set (e # m) then map_of (e # m) k
         else map_of acc k)"
    using n by (auto simp: e map_of_obj_assign)
  finally show ?case .
qed

lemma fold_assign_distinct:
  "distinct (map fst acc) \<Longrightarrow>
   distinct (map fst (fold (\<lambda>(key, v) config. obj_assign config key v) m acc))"
  by (induction m arbitrary: acc) (auto simp: distinct_obj_assign)

text \<open>Loading keeps the entries of the stored object whose key passes the catalog test.\<close>

lemma fold_load:
  assumes "distinct (map fst doc)"
  shows "map_of (fold (\<lambda>(key, v) monitored.
                   if P key then AList.update key v monitored else monitored) doc acc) k
         = (if P k \<and> k \<in> fst ` set doc then map_of doc k else map_of acc k)"
  using assms
proof (induction doc arbitrary: acc)
  case Nil
  then show ?case by simp
next
  case (Cons e doc)
  obtain k' v' where e: "e = (k', v')" by (cases e)
  from Cons.prems have d: "distinct (map fst doc)" and n: "k' \<notin> fst ` set doc"
    by (auto simp: e)
  let ?acc = "if P k' then AList.update k' v' acc else acc"
  have "map_of (fold (\<lambda>(key, v) monitored.
                   if P key then AList.update key v monitored else monitored) (e # doc) acc) k
      = (if P k \<and> k \<in> fst ` set doc then map_of doc k else map_of ?acc k)"
    using Cons.IH[OF d, of ?acc] by (simp add: e)
  also have "\<dots> = (if P k \<and> k \<in> fst ` set (e # doc) then map_of (e # doc) k else map_of acc k)"
    using n by (auto simp: e update_conv')
  finally show ?case .
qed

text \<open>What the round trip through \<open>localStorage\<close> keeps.\<close>

lemma round_trip_general:
  assumes "distinct (map fst (monitoredFields st))"
  shows "map_of (monitoredFields (reload p catalog (saveConfiguration st))) k
         = (if k \<noteq> js ''__proto__'' \<and> has_field catalog k then map_of (monitoredFields st) k
            else None)"
proof -
  let ?d = "fold (\<lambda>(key, v) config. obj_assign config key v) (monitoredFields st) []"
  have d: "distinct (map fst ?d)"
    by (rule fold_assign_distinct) simp
  have md: "map_of ?d k' = (if k' \<noteq> js ''__proto__'' then map_of (monitoredFields st) k' else None)"
    for k'
    using fold_assign[OF assms, of "[]" k'] by (auto simp: map_of_None_iff[symmetric])
  have "map_of (monitoredFields (reload p catalog (saveConfiguration st))) k
        = (if has_field catalog k \<and> k \<in> fst ` set ?d then map_of ?d k else None)"
    using fold_load[OF d, of "has_field catalog" "[]" k]
    by (simp add: reload_def saveConfiguration_def loadSavedConfiguration_def page_load_def desktop_def)
  also have "\<dots> = (if has_field catalog k then map_of ?d k else None)"
    by (auto simp: map_of_None_iff[symmetric])
  finally show ?thesis by (simp add: md)
qed

text \<open>
  On the page whose map also holds the field \<open>old\<close>, which the catalog does not
  have: \<open>timer\<close> comes back with its configuration, \<open>old\<close> does not.
\<close>

lemma stale_entry_dropped:
  "map_of (monitoredFields (reload desktop (customFields stale_page)
             (saveConfiguration stale_page))) (js ''timer'') = Some timer_config
   \<and> map_of (monitoredFields (reload desktop (customFields stale_page)
             (saveConfiguration stale_page))) (js ''old'') = None"
proof -
  have d: "distinct (map fst (monitoredFields stale_page))"
    by (simp add: stale_page_def js_def)
  have h: "js ''timer'' \<noteq> js ''__proto__''" "has_field (customFields stale_page) (js ''timer'')"
    "\<not> has_field (customFields stale_page) (js ''old'')"
    by (simp_all add: has_field_def stale_page_def timer_page_def object_prototype_names_def
        js_def)
  show ?thesis
    using h by (simp add: round_trip_general[OF d]) (simp add: stale_page_def)
qed

text \<open>
  Claim C6 against the code. The claim has every map come back from the round trip
  without the keys that the catalog does not have. Two maps do not. On
  \<open>proto_page\<close> the catalog has the field \<open>__proto__\<close> and the map monitors
  it: \<open>saveConfiguration\<close> stores an object without members, since
  \<open>config['__proto__'] = value\<close> makes no own property, and after the reload the
  field is not monitored. On \<open>constructor_page\<close> the map holds an entry for
  \<open>constructor\<close>, which the catalog does not have: \<open>customFields['constructor']\<close>
  finds the inherited member, so the test of \<open>loadSavedConfiguration\<close> lets the
  entry through and it is monitored after the reload. For every other key the round
  trip is as claimed (\<open>round_trip_general\<close>).
\<close>

theorem round_trip_inherited_names:
  "map_of (customFields proto_page) (js ''__proto__'') = Some timer_field
   \<and> map_of (monitoredFields proto_page) (js ''__proto__'') = Some timer_config
   \<and> stored_config (saveConfiguration proto_page) = Some (ConfigDoc [])
   \<and> map_of (monitoredFields (reload desktop (customFields proto_page)
               (saveConfiguration proto_page))) (js ''__proto__'') = None
   \<and> map_of (customFields constructor_page) (js ''constructor'') = None
   \<and> map_of (monitoredFields constructor_page) (js ''constructor'') = Some timer_config
   \<and> map_of (monitoredFields (reload desktop (customFields constructor_page)
               (saveConfiguration constructor_page))) (js ''constructor'') = Some timer_config"
  by (simp add: proto_page_def constructor_page_def timer_page_def reload_def
      saveConfiguration_def loadSavedConfiguration_def renderFieldsConfiguration_def
      populateAddFieldDropdown_def page_load_def desktop_def obj_assign_def has_field_def
      object_prototype_names_def Let_def js_def)

section \<open>The gate of the speech dispatcher\<close>

text \<open>
  As long as the TTS checkbox is left alone, the engine holds at most one utterance and
  only while the flag is set.
\<close>

lemma gate_inv_speakValue: "gate_inv st \<Longrightarrow> gate_inv (speakValue k s c st)"
  by (auto simp: gate_inv_def speakValue_def Let_def cancel_def)

lemma gate_inv_timeout: "gate_inv st \<Longrightarrow> gate_inv (speak_timeout r live st)"
  by (auto simp: gate_inv_def speak_timeout_def Let_def split: list.splits)

lemma gate_inv_finished: "gate_inv st \<Longrightarrow> gate_inv (utterance_finished i st)"
  by (cases "engine_queue st") (auto simp: gate_inv_def utterance_finished_def)

lemma gate_inv_late: "gate_inv st \<Longrightarrow> gate_inv (interrupted_event i st)"
  by (auto simp: gate_inv_def interrupted_event_def)

lemma gate_inv_other: "gate_inv st \<Longrightarrow> same_speech st st' \<Longrightarrow> gate_inv st'"
  by (auto simp: gate_inv_def same_speech_def)

lemma gate_inv_step: "dispatcher_step st st' \<Longrightarrow> gate_inv st \<Longrightarrow> gate_inv st'"
  by (induction rule: dispatcher_step.induct)
     (auto intro: gate_inv_speakValue gate_inv_timeout gate_inv_finished gate_inv_late
        gate_inv_other)

lemma checkbox_untouched_gate_inv: "reachable_by dispatcher_step st \<Longrightarrow> gate_inv st"
  by (induction rule: reachable_by.induct)
     (auto simp: gate_inv_def speech_idle_def dest: gate_inv_step)

text \<open>
  In those runs a request that finds no speech engine or finds the flag set is dropped,
  a timer callback that finds the flag set only uses up its timer, a callback that finds
  it clear sets it and hands exactly its own utterance to the engine (and clears the
  flag again if \<open>speak\<close> throws), and the end or the error of the utterance clears
  the flag.
\<close>

lemma checkbox_untouched_gate:
  assumes "reachable_by dispatcher_step st"
  shows "length (engine_queue st) \<le> 1
       \<and> (engine_queue st \<noteq> [] \<longrightarrow> isSpeaking st)
       \<and> (\<not> speechSynthesis st \<or> isSpeaking st \<longrightarrow>
            speakValue fieldKey seconds config st
            = st\<lparr>speak_calls := speak_calls st @ [(fieldKey, seconds, config)]\<rparr>)
       \<and> (isSpeaking st \<longrightarrow> speak_timeout returns live st = st\<lparr>timers := tl (timers st)\<rparr>)
       \<and> (\<not> isSpeaking st \<and> timers st \<noteq> [] \<longrightarrow>
            isSpeaking (speak_timeout True live st)
            \<and> length (engine_queue (speak_timeout True live st)) = 1
            \<and> \<not> isSpeaking (speak_timeout False live st)
            \<and> engine_queue (speak_timeout False live st) = [])
       \<and> (i < length (engine_queue st) \<longrightarrow>
            \<not> isSpeaking (utterance_finished i st) \<and> engine_queue (utterance_finished i st) = [])"
proof -
  from checkbox_untouched_gate_inv[OF assms] have inv:
    "interrupted st = []" "length (engine_queue st) \<le> 1" "engine_queue st \<noteq> [] \<longrightarrow> isSpeaking st"
    by (simp_all add: gate_inv_def)
  have a: "\<not> speechSynthesis st \<or> isSpeaking st \<longrightarrow>
            speakValue fieldKey seconds config st
            = st\<lparr>speak_calls := speak_calls st @ [(fieldKey, seconds, config)]\<rparr>"
    by (auto simp: speakValue_def Let_def)
  have b: "isSpeaking st \<longrightarrow> speak_timeout returns live st = st\<lparr>timers := tl (timers st)\<rparr>"
    by (cases "timers st") (auto simp: speak_timeout_def Let_def)
  have c: "\<not> isSpeaking st \<and> timers st \<noteq> [] \<longrightarrow>
            isSpeaking (speak_timeout True live st)
            \<and> length (engine_queue (speak_timeout True live st)) = 1
            \<and> \<not> isSpeaking (speak_timeout False live st)
            \<and> engine_queue (speak_timeout False live st) = []"
    using inv(3) by (cases "timers st") (auto simp: speak_timeout_def Let_def)
  have d: "i < length (engine_queue st) \<longrightarrow>
            \<not> isSpeaking (utterance_finished i st) \<and> engine_queue (utterance_finished i st) = []"
    using inv(2) by (cases "engine_queue st") (auto simp: utterance_finished_def)
  show ?thesis using inv(2,3) a b c d by blast
qed

text \<open>
  While \<open>"5"\<close> is being spoken, a request for another field is recorded and dropped.
\<close>

lemma speaking_page_eval:
  "isSpeaking speaking_page" "timers speaking_page = []"
  "map utt_text (engine_queue speaking_page) = [js ''5'']"
  "map fst (speak_calls speaking_page) = [js ''timer'', js ''other'']"
  by (simp_all add: speaking_page_def waiting_page_def speakValue_def speak_timeout_def Let_def
      timer_page_def page_load_def desktop_def js_def)

text \<open>
  The utterance has the language that the configuration object has when the callback
  runs, not the one it had at the call.
\<close>

lemma callback_reads_live_config:
  "map (\<lambda>r. language (snd (snd r))) (timers waiting_page) = [js ''en-US'']
   \<and> map utt_lang
        (engine_queue (speak_timeout True (timer_config\<lparr>language := js ''de-DE''\<rparr>) waiting_page))
      = [js ''de-DE'']"
  by (simp add: waiting_page_def speakValue_def speak_timeout_def Let_def timer_page_def
      page_load_def desktop_def timer_config_def js_def)

text \<open>The run with the checkbox in it, step by step.\<close>

lemmas eval_speech =
  waiting_page_def switched_off_page_def released_run_def toggle_run_def
  on_tts_enabled_change_def interrupted_event_def cancel_def speakValue_def speak_timeout_def
  Let_def timer_page_def page_load_def desktop_def

lemma switched_off_page_eval:
  "\<not> isSpeaking switched_off_page" "engine_queue switched_off_page = []"
  "timers switched_off_page = []"
  "map utt_text (interrupted switched_off_page) = [js ''5'']"
  "speechSynthesis switched_off_page"
  by (simp_all add: eval_speech js_def)

lemma released_run_eval:
  "\<not> isSpeaking released_run"
  "map utt_text (engine_queue released_run) = [js ''3'']"
  "timers released_run = [(js ''b'', Finite 4, timer_config)]"
  "interrupted released_run = []"
  "speechSynthesis released_run"
  by (simp_all add: eval_speech js_def)

lemma toggle_run_eval:
  "isSpeaking toggle_run"
  "map utt_text (engine_queue toggle_run) = [js ''3'', js ''4'']"
  by (simp_all add: eval_speech js_def)

lemma toggle_run_reachable: "reachable_by speech_step toggle_run"
proof -
  let ?r = "reachable_by speech_step"
  let ?s1 = "speak_timeout True timer_config waiting_page"
  let ?s3 = "on_tts_enabled_change True switched_off_page"
  let ?s4 = "speakValue (js ''a'') (Finite 3) timer_config ?s3"
  let ?s5 = "speakValue (js ''b'') (Finite 4) timer_config ?s4"
  let ?s6 = "speak_timeout True timer_config ?s5"
  have 0: "?r timer_page"
    by (rule reachable_by.start) (simp add: speech_idle_def timer_page_def page_load_def desktop_def)
  have w: "?r waiting_page"
    unfolding waiting_page_def
    by (rule reachable_by.step[OF 0]) (rule speech_step.dispatcher, rule dispatcher_step.call)
  have "timers waiting_page \<noteq> []"
    by (simp add: waiting_page_def speakValue_def Let_def timer_page_def page_load_def desktop_def)
  then have 1: "?r ?s1"
    by (intro reachable_by.step[OF w] speech_step.dispatcher dispatcher_step.timeout)
  have 2: "?r switched_off_page"
    unfolding switched_off_page_def by (rule reachable_by.step[OF 1]) (rule speech_step.toggle)
  have 3: "?r ?s3"
    by (rule reachable_by.step[OF 2]) (rule speech_step.toggle)
  have 4: "?r ?s4"
    by (rule reachable_by.step[OF 3]) (rule speech_step.dispatcher, rule dispatcher_step.call)
  have 5: "?r ?s5"
    by (rule reachable_by.step[OF 4]) (rule speech_step.dispatcher, rule dispatcher_step.call)
  have "timers ?s5 \<noteq> []"
    by (simp add: eval_speech)
  then have 6: "?r ?s6"
    by (intro reachable_by.step[OF 5] speech_step.dispatcher dispatcher_step.timeout)
  have "0 < length (interrupted ?s6)"
    by (simp add: eval_speech)
  then have 7: "?r released_run"
    unfolding released_run_def
    by (intro reachable_by.step[OF 6] speech_step.dispatcher dispatcher_step.late)
  have "timers released_run \<noteq> []"
    by (simp add: released_run_eval(3))
  then show ?thesis
    unfolding toggle_run_def
    by (intro reachable_by.step[OF 7] speech_step.dispatcher dispatcher_step.timeout)
qed

text \<open>
  Claim C4 against the code. The claim has at most one utterance in flight at any
  instant. Let \<open>"5"\<close> be spoken while the TTS checkbox is unticked: the handler
  cancels the utterance and clears the flag at once, before the error event of the
  cancelled utterance has been delivered. The checkbox is ticked again and a payload
  changes the fields \<open>a\<close> and \<open>b\<close>: both requests find the flag clear and each
  sets its timer. The timer of \<open>a\<close> fires, sets the flag and hands \<open>"3"\<close> to the
  engine. Then the error event of \<open>"5"\<close> arrives and its handler clears the flag
  while \<open>"3"\<close> is in flight. The timer of \<open>b\<close> fires, finds the flag clear and
  hands \<open>"4"\<close> to the engine beside \<open>"3"\<close>. A request that arrives in
  \<open>released_run\<close> instead is not dropped either: it cancels \<open>"3"\<close>.
\<close>

theorem two_utterances_in_flight:
  "reachable_by speech_step toggle_run
   \<and> \<not> isSpeaking switched_off_page
   \<and> map utt_text (interrupted switched_off_page) = [js ''5'']
   \<and> \<not> isSpeaking released_run
   \<and> map utt_text (engine_queue released_run) = [js ''3'']
   \<and> timers released_run = [(js ''b'', Finite 4, timer_config)]
   \<and> isSpeaking toggle_run
   \<and> map utt_text (engine_queue toggle_run) = [js ''3'', js ''4'']
   \<and> engine_queue (speakValue (js ''c'') (Finite 2) timer_config released_run) = []
   \<and> map utt_text (interrupted (speakValue (js ''c'') (Finite 2) timer_config released_run))
      = [js ''3'']"
proof -
  have "engine_queue (speakValue (js ''c'') (Finite 2) timer_config released_run) = []
     \<and> map utt_text (interrupted (speakValue (js ''c'') (Finite 2) timer_config released_run))
        = [js ''3'']"
    by (simp add: eval_speech js_def)
  then show ?thesis
    using toggle_run_reachable switched_off_page_eval released_run_eval toggle_run_eval by simp
qed

section \<open>The fetch of the field catalog\<close>

text \<open>
  Claim C7 against the code. On a page just loaded, a response with the status 500 and
  a network error each put an informational paragraph into the fields container, but
  the add-field dropdown is left as the static page has it:
  \<open>populateAddFieldDropdown\<close> is called only on the path of the empty result, which
  fills the dropdown with the placeholder option and disables the add button.
\<close>

theorem failed_fetch_leaves_dropdown:
  "fields_container (loadCustomFields (Response 500 None) (page_load desktop))
     = Info (msg_error_status 500)
   \<and> add_field_dropdown (loadCustomFields (Response 500 None) (page_load desktop)) = Static
   \<and> fields_container (loadCustomFields NetworkError (page_load desktop)) = Info msg_error
   \<and> add_field_dropdown (loadCustomFields NetworkError (page_load desktop)) = Static
   \<and> fields_container (loadCustomFields (Response 200 (Some [])) (page_load desktop))
     = Info msg_no_fields
   \<and> add_field_dropdown (loadCustomFields (Response 200 (Some [])) (page_load desktop))
     = Options [([], js ''Select a field to add...'')] True"
  by (simp add: response_ok_def page_load_def desktop_def populateAddFieldDropdown_def)


section \<open>The threshold input\<close>

declare decimal.simps [simp del]

lemma digit_char: "d < 10 \<Longrightarrow> is_digit (0x30 + of_nat d)" "d < 10 \<Longrightarrow> digit_val (0x30 + of_nat d) = int d"
  using dg_digit[of d] dg_val[of d] by (simp_all add: dg_def)

lemma decimal_digits: "list_all is_digit (decimal n)"
proof (induction n rule: decimal.induct)
  case (1 n)
  show ?case
  proof (cases "n < 10")
    case True
    then show ?thesis by (subst decimal.simps) (simp add: digit_char)
  next
    case False
    then show ?thesis using 1 by (subst decimal.simps) (simp add: digit_char)
  qed
qed

lemma decimal_nonempty: "decimal n \<noteq> []"
  by (subst decimal.simps) simp

lemma decimal_value: "foldl (\<lambda>a c. 10 * a + digit_val c) 0 (decimal n) = int n"
proof (induction n rule: decimal.induct)
  case (1 n)
  show ?case
  proof (cases "n < 10")
    case True
    then show ?thesis by (subst decimal.simps) (simp add: digit_char)
  next
    case False
    then have "foldl (\<lambda>a c. 10 * a + digit_val c) 0 (decimal (n div 10)) = int (n div 10)"
      using 1 by simp
    then show ?thesis using False
      by (subst decimal.simps) (simp add: digit_char zdiv_int zmod_int)
  qed
qed

lemma parseInt10_digits:
  assumes "s \<noteq> []" "list_all is_digit s"
  shows "parseInt10 s = Finite (foldl (\<lambda>a c. 10 * a + digit_val c) 0 s)"
proof -
  obtain c r where cr: "s = c # r" using assms(1) by (cases s) auto
  have d: "is_digit c" "list_all is_digit r" using assms(2) by (simp_all add: cr)
  have t: "takeWhile is_digit r = r"
    using d(2) by (simp add: list_all_iff takeWhile_eq_all_conv)
  show ?thesis
    using digit_not_ws[OF d(1)] digit_not_sign[OF d(1)] d(1)
    by (simp add: parseInt10_def cr t)
qed

lemma parseInt10_decimal: "parseInt10 (decimal n) = Finite (int n)"
  by (simp add: parseInt10_digits[OF decimal_nonempty decimal_digits] decimal_value)

text \<open>
  What the threshold input stores when a non-negative integer below \<open>2^53\<close> is
  typed into it: the integer itself unless it is zero, for which the fallback
  \<open>|| 10\<close> stores 10. (From \<open>2^53\<close> on \<open>parseInt\<close> rounds, and the
  statement says nothing.)
\<close>

lemma threshold_input_stored:
  assumes "n < 2 ^ 53"
  shows "map_option threshold
     (map_of (monitoredFields (on_field_threshold_change fieldKey (decimal n) st)) fieldKey)
   = Some (if n = 0 then 10 else int n)"
  by (simp add: on_field_threshold_change_def saveConfiguration_def update_conv'
      parseInt10_decimal)

text \<open>
  Claim C9 against the code. With 30 typed into the threshold input of \<open>timer\<close> the
  configuration holds 30; with 0 typed in afterwards it holds 10, not 0.
\<close>

theorem threshold_zero_stores_ten:
  "map_option threshold
     (map_of (monitoredFields (on_field_threshold_change (js ''timer'') (js ''30'') timer_page))
        (js ''timer'')) = Some 30
   \<and> map_option threshold
     (map_of (monitoredFields
        (on_field_threshold_change (js ''timer'') (js ''0'')
           (on_field_threshold_change (js ''timer'') (js ''30'') timer_page)))
        (js ''timer'')) = Some 10"
  by (simp add: on_field_threshold_change_def saveConfiguration_def config_or_default_def
      timer_page_def page_load_def desktop_def timer_config_def parseInt10_def is_ws_def is_digit_def
      digit_val_def js_def)

end

